theory Spec2Isabelle
  imports Main "HOL-Library.Word" "HOL-Library.Monad_Syntax"
begin

section \<open>Package apply: the file-system applier (src/diff/apply/apply.go)\<close>

subsection \<open>Data model\<close>

type_synonym byte = "8 word"

text \<open>
  Go errors as values. \<open>EOF\<close> is the sentinel \<open>io.EOF\<close>, \<open>Err m\<close> an opaque
  error of a collaborator with message \<open>m\<close>, and \<open>Wrap e m\<close> is
  \<open>errors.Wrap(e, m)\<close> (also \<open>errors.Wrapf\<close> with the message already formatted).
  \<open>None :: error option\<close> is the nil error.
\<close>

datatype error = EOF | Err string | Wrap error string

text \<open>
  \<open>ocispec.Descriptor\<close>, with the three fields this package reads and writes.
  \<open>Size\<close> is an \<open>int64\<close>; \<open>Digest\<close> is the string type \<open>digest.Digest\<close>.
\<close>

record Descriptor =
  MediaType :: string
  Digest :: string
  Size :: "64 word"

text \<open>\<open>var emptyDesc = ocispec.Descriptor{}\<close>: the zero value.\<close>

definition emptyDesc :: Descriptor where
  "emptyDesc = \<lparr>MediaType = [], Digest = [], Size = 0\<rparr>"

text \<open>\<open>ocispec.MediaTypeImageLayer\<close>, the label of the uncompressed layer.\<close>

definition MediaTypeImageLayer :: string where
  "MediaTypeImageLayer = ''application/vnd.oci.image.layer.v1.tar''"

text \<open>\<open>diff.ApplyConfig\<close>: the payloads handed to the stream processors, by media type.\<close>

record ApplyConfig =
  ProcessorPayloads :: "string \<rightharpoonup> string"

definition config0 :: ApplyConfig where
  "config0 = \<lparr>ProcessorPayloads = Map.empty\<rparr>"

text \<open>
  A \<open>diff.ApplyOpt\<close> receives the descriptor and a pointer to the configuration; it
  leaves the configuration as it has changed it and returns an error or nil.
\<close>

type_synonym ApplyOpt = "Descriptor \<Rightarrow> ApplyConfig \<Rightarrow> ApplyConfig \<times> error option"

text \<open>The result of one \<open>Read(p)\<close>: the bytes stored in \<open>p[:n]\<close> and the error.\<close>

type_synonym read_result = "byte list \<times> error option"

text \<open>
  The calls \<open>Apply\<close> makes on its collaborators, in the order it makes them, each with
  what the call returned where that matters. \<open>EvGetProcessor p res\<close> is a call of
  \<open>diff.GetProcessor\<close> on the stream \<open>p\<close>, which failed or returned a new stage;
  \<open>EvProcRead n res\<close> is a \<open>Read\<close> of the resolved processor with a buffer of \<open>n\<close>
  bytes; \<open>EvFsWrite\<close> is a mutation of the mounted file system by the extraction;
  \<open>EvProcClose p res\<close> is \<open>p.Close()\<close> and what it returned.
\<close>

datatype ('ra, 'p) event =
    EvReaderAt Descriptor
  | EvGetProcessor 'p "error + 'p"
  | EvMount "string list"
  | EvExtract string
  | EvProcRead nat read_result
  | EvFsWrite string
  | EvUnmount string
  | EvProcClose 'p "error option"
  | EvReaderClose 'ra
  | EvLog int string "64 word" string

text \<open>
  The extraction algorithm \<open>archive.Apply(ctx, root, r)\<close> as a client of the reader it
  is given: it returns, asks for a read with a buffer of some length and goes on from
  the answer, or changes the file system and goes on.
\<close>

datatype 'a consumer =
    Return 'a
  | ReadReq nat "read_result \<Rightarrow> 'a consumer"
  | FsWrite string "'a consumer"

text \<open>
  The collaborators of \<open>Apply\<close>, which are not part of this package: the content
  store, the processor registry of package diff, the processors themselves, the
  mount primitives, the archive extraction, the canonical digest algorithm and the
  clock. \<open>'ra\<close> is the store's \<open>content.ReaderAt\<close>, \<open>'p\<close> a stream processor together
  with the state of the stream below it.
\<close>

record ('ra, 'p) env =
  store_ReaderAt :: "Descriptor \<Rightarrow> error + 'ra"
  NewProcessorChain :: "string \<Rightarrow> 'ra \<Rightarrow> 'p"
  GetProcessor :: "'p \<Rightarrow> (string \<rightharpoonup> string) \<Rightarrow> error + 'p"
  proc_MediaType :: "'p \<Rightarrow> string"
  proc_Read :: "'p \<Rightarrow> nat \<Rightarrow> read_result \<times> 'p"
  proc_Close :: "'p \<Rightarrow> error option"
  mount_acquire :: "string list \<Rightarrow> error + string"
  mount_release :: "string \<Rightarrow> error option \<Rightarrow> error option"
  archive_Apply :: "string \<Rightarrow> (64 word \<times> error option) consumer"
  canonical_digest :: "byte list \<Rightarrow> string"
  time_Now :: int
  time_Since :: "int \<Rightarrow> int"

subsection \<open>The canonical reader\<close>

text \<open>
  \<open>io.TeeReader(processor, digester.Hash())\<close>: a read is passed to the processor and
  the bytes it returned are written to the hash, whose \<open>Write\<close> never fails. The hash
  state is the sequence of bytes written to it so far; \<open>digester.Digest()\<close> is the
  canonical digest of that sequence.
\<close>

record 'p teeReader =
  tee_r :: 'p
  tee_w :: "byte list"

definition tee_Read :: "('ra, 'p) env \<Rightarrow> 'p teeReader \<Rightarrow> nat \<Rightarrow> read_result \<times> 'p teeReader" where
  "tee_Read E t n =
     (let (res, p') = proc_Read E (tee_r t) n
      in (res, \<lparr>tee_r = p',
                tee_w = (if length (fst res) > 0 then tee_w t @ fst res else tee_w t)\<rparr>))"

text \<open>
  \<open>type readCounter struct { r io.Reader; c int64 }\<close> and its \<open>Read\<close> (lines 112 to
  121): \<open>n, err = rc.r.Read(p); rc.c += int64(n); return\<close>. The addition wraps as
  \<open>int64\<close> does.
\<close>

record 'p readCounter =
  r :: "'p teeReader"
  c :: "64 word"

definition readCounter_Read ::
  "('ra, 'p) env \<Rightarrow> 'p readCounter \<Rightarrow> nat \<Rightarrow> read_result \<times> 'p readCounter" where
  "readCounter_Read E rc n =
     (let (res, t') = tee_Read E (r rc) n
      in (res, \<lparr>r = t', c = c rc + of_nat (length (fst res))\<rparr>))"

subsection \<open>The parts of Apply\<close>

text \<open>
  The loop over the options (lines 66 to 71): each option is called with the descriptor
  and the configuration as its predecessors left it; the first error ends the loop.
\<close>

fun apply_opts :: "ApplyOpt list \<Rightarrow> Descriptor \<Rightarrow> ApplyConfig \<Rightarrow> error + ApplyConfig" where
  "apply_opts [] desc config = Inr config"
| "apply_opts (o1 # os) desc config =
     (case o1 desc config of
        (config', Some e) \<Rightarrow> Inl e
      | (config', None) \<Rightarrow> apply_opts os desc config')"

text \<open>
  The loop of lines 80 to 87, \<open>for { processor, err = diff.GetProcessor(...); ...; if
  processor.MediaType() == ocispec.MediaTypeImageLayer { break } }\<close>. It has no bound,
  so the model is a partial function: \<open>None\<close> is the loop that never ends. The result
  carries the calls made.
\<close>

partial_function (option) resolve ::
  "('ra, 'p) env \<Rightarrow> (string \<rightharpoonup> string) \<Rightarrow> 'p \<Rightarrow> ((error + 'p) \<times> ('ra, 'p) event list) option" where
  "resolve E payloads p =
     (case GetProcessor E p payloads of
        Inl e \<Rightarrow> Some (Inl e, [EvGetProcessor p (Inl e)])
      | Inr p' \<Rightarrow>
          if proc_MediaType E p' = MediaTypeImageLayer
          then Some (Inr p', [EvGetProcessor p (Inr p')])
          else do { (res, evs) \<leftarrow> resolve E payloads p';
                    Some (res, EvGetProcessor p (Inr p') # evs) })"

text \<open>The extraction, run against the canonical reader.\<close>

primrec run_consumer ::
  "('ra, 'p) env \<Rightarrow> 'a consumer \<Rightarrow> 'p readCounter \<Rightarrow> 'a \<times> 'p readCounter \<times> ('ra, 'p) event list" where
  "run_consumer E (Return x) rc = (x, rc, [])"
| "run_consumer E (ReadReq n k) rc =
     (let (res, rc') = readCounter_Read E rc n;
          (x, rc'', evs) = run_consumer E (k res) rc'
      in (x, rc'', EvProcRead n res # evs))"
| "run_consumer E (FsWrite entry k) rc =
     (let (x, rc', evs) = run_consumer E k rc in (x, rc', EvFsWrite entry # evs))"

text \<open>
  \<open>io.Copy(ioutil.Discard, rc)\<close>: \<open>ioutil.Discard\<close> is an \<open>io.ReaderFrom\<close>, so the copy
  is its \<open>ReadFrom\<close>: reads with a buffer of 8192 bytes until a read returns an error,
  and \<open>io.EOF\<close> is then reported as nil. A source that never returns an error is read
  for ever.
\<close>

partial_function (option) drain ::
  "('ra, 'p) env \<Rightarrow> 'p readCounter \<Rightarrow> (error option \<times> 'p readCounter \<times> ('ra, 'p) event list) option" where
  "drain E rc =
     (let (res, rc') = readCounter_Read E rc 8192
      in case snd res of
           Some e \<Rightarrow> Some (if e = EOF then None else Some e, rc', [EvProcRead 8192 res])
         | None \<Rightarrow> do { (err, rc'', evs) \<leftarrow> drain E rc'; Some (err, rc'', EvProcRead 8192 res # evs) })"

text \<open>
  The function literal passed to \<open>mount.WithTempMount\<close> (lines 94 to 102): extract;
  if that succeeded, read any trailing data. Both work on the reader \<open>rc\<close> of the
  enclosing call.
\<close>

definition apply_callback ::
  "('ra, 'p) env \<Rightarrow> string \<Rightarrow> 'p readCounter \<Rightarrow>
     (error option \<times> 'p readCounter \<times> ('ra, 'p) event list) option" where
  "apply_callback E root rc =
     (let (res, rc1, evs) = run_consumer E (archive_Apply E root) rc
      in case snd res of
           Some e \<Rightarrow> Some (Some e, rc1, EvExtract root # evs)
         | None \<Rightarrow> do { (err, rc2, evs') \<leftarrow> drain E rc1;
                        Some (err, rc2, EvExtract root # evs @ evs') })"

text \<open>
  Modelled from the spec: \<open>mount.WithTempMount\<close> of package mount, which is not among
  the sources. The spec's contract (4.3): acquire a path from the mount specification,
  invoke the one operation it is given with that path, release what was acquired on
  every exit path; when the acquisition fails the operation is not invoked. What error
  the release makes of the operation's error is left to \<open>mount_release\<close>.
\<close>

definition WithTempMount ::
  "('ra, 'p) env \<Rightarrow> string list \<Rightarrow>
     (string \<Rightarrow> 'p readCounter \<Rightarrow> (error option \<times> 'p readCounter \<times> ('ra, 'p) event list) option) \<Rightarrow>
     'p readCounter \<Rightarrow> (error option \<times> 'p readCounter \<times> ('ra, 'p) event list) option" where
  "WithTempMount E mounts f rc =
     (case mount_acquire E mounts of
        Inl e \<Rightarrow> Some (Some e, rc, [EvMount mounts])
      | Inr root \<Rightarrow>
          do { (err, rc', evs) \<leftarrow> f root rc;
               Some (mount_release E root err, rc', EvMount mounts # evs @ [EvUnmount root]) })"

text \<open>
  The first deferred function of \<open>Apply\<close> (lines 55 to 64), which runs last: it logs
  when the named result \<open>err\<close> is nil. \<open>returning\<close> is a return statement: the results
  are set, then the deferred calls run.
\<close>

definition deferred_log ::
  "('ra, 'p) env \<Rightarrow> Descriptor \<Rightarrow> int \<Rightarrow> error option \<Rightarrow> ('ra, 'p) event list" where
  "deferred_log E desc t1 err =
     (if err = None then [EvLog (time_Since E t1) (Digest desc) (Size desc) (MediaType desc)]
      else [])"

definition returning ::
  "('ra, 'p) env \<Rightarrow> Descriptor \<Rightarrow> int \<Rightarrow> Descriptor \<times> error option \<Rightarrow> ('ra, 'p) event list \<Rightarrow>
     (Descriptor \<times> error option) \<times> ('ra, 'p) event list" where
  "returning E desc t1 res evs = (res, evs @ deferred_log E desc t1 (snd res))"

subsection \<open>Apply\<close>

text \<open>
  \<open>func (s *fsApplier) Apply(ctx, desc, mounts, opts...) (d ocispec.Descriptor, err error)\<close>,
  lines 53 to 110. The result is the pair the function returns and the calls it made; \<open>None\<close> is a call
  that does not return. The deferred calls run in reverse order of their \<open>defer\<close>
  statements: \<open>processor.Close()\<close>, whose result is dropped, then \<open>ra.Close()\<close>, then
  the logging function.
\<close>

definition Apply ::
  "('ra, 'p) env \<Rightarrow> Descriptor \<Rightarrow> string list \<Rightarrow> ApplyOpt list \<Rightarrow>
     ((Descriptor \<times> error option) \<times> ('ra, 'p) event list) option" where
  "Apply E desc mounts opts =
     (let t1 = time_Now E in
      case apply_opts opts desc config0 of
        Inl e \<Rightarrow>
          Some (returning E desc t1 (emptyDesc, Some (Wrap e ''failed to apply config opt'')) [])
      | Inr config \<Rightarrow>
         (case store_ReaderAt E desc of
            Inl e \<Rightarrow>
              Some (returning E desc t1
                (emptyDesc, Some (Wrap e ''failed to get reader from content store''))
                [EvReaderAt desc])
          | Inr ra \<Rightarrow>
              do { (res, evs1) \<leftarrow> resolve E (ProcessorPayloads config)
                                     (NewProcessorChain E (MediaType desc) ra);
                   case res of
                     Inl e \<Rightarrow>
                       Some (returning E desc t1
                         (emptyDesc,
                          Some (Wrap e (''failed to get stream processor for '' @ MediaType desc)))
                         (EvReaderAt desc # evs1 @ [EvReaderClose ra]))
                   | Inr processor \<Rightarrow>
                       do { (err, rc, evs2) \<leftarrow>
                              WithTempMount E mounts (apply_callback E)
                                \<lparr>r = \<lparr>tee_r = processor, tee_w = []\<rparr>, c = 0\<rparr>;
                            let closes = [EvProcClose (tee_r (r rc)) (proc_Close E (tee_r (r rc))),
                                          EvReaderClose ra]
                            in case err of
                                 Some e \<Rightarrow>
                                   Some (returning E desc t1 (emptyDesc, Some e)
                                     (EvReaderAt desc # evs1 @ evs2 @ closes))
                               | None \<Rightarrow>
                                   Some (returning E desc t1
                                     (\<lparr>MediaType = MediaTypeImageLayer,
                                       Digest = canonical_digest E (tee_w (r rc)),
                                       Size = c rc\<rparr>, None)
                                     (EvReaderAt desc # evs1 @ evs2 @ closes)) } }))"

subsection \<open>Reading a trace\<close>

text \<open>All the bytes the reads of a trace returned, in order.\<close>

fun read_bytes :: "('ra, 'p) event list \<Rightarrow> byte list" where
  "read_bytes [] = []"
| "read_bytes (EvProcRead n res # evs) = fst res @ read_bytes evs"
| "read_bytes (ev # evs) = read_bytes evs"

fun is_read :: "('ra, 'p) event \<Rightarrow> bool" where
  "is_read (EvProcRead n res) = True"
| "is_read ev = False"

fun is_log :: "('ra, 'p) event \<Rightarrow> bool" where
  "is_log (EvLog d dg sz mt) = True"
| "is_log ev = False"

text \<open>The error of a read; nil for every other call.\<close>

fun read_err :: "('ra, 'p) event \<Rightarrow> error option" where
  "read_err (EvProcRead n res) = snd res"
| "read_err ev = None"

text \<open>The calls that touch the file system, and the calls that close something.\<close>

fun is_fs :: "('ra, 'p) event \<Rightarrow> bool" where
  "is_fs (EvMount mounts) = True"
| "is_fs (EvExtract root) = True"
| "is_fs (EvFsWrite entry) = True"
| "is_fs (EvUnmount root) = True"
| "is_fs ev = False"

fun is_close :: "('ra, 'p) event \<Rightarrow> bool" where
  "is_close (EvProcClose p res) = True"
| "is_close (EvReaderClose ra) = True"
| "is_close ev = False"

subsection \<open>Yardsticks for the loops and the reads\<close>

text \<open>
  \<open>chain_stops E payloads n p\<close>: within \<open>n + 1\<close> calls of \<open>GetProcessor\<close>, starting from
  the stream \<open>p\<close>, a call fails or returns a stage with the canonical label.
\<close>

fun chain_stops :: "('ra, 'p) env \<Rightarrow> (string \<rightharpoonup> string) \<Rightarrow> nat \<Rightarrow> 'p \<Rightarrow> bool" where
  "chain_stops E payloads 0 p =
     (case GetProcessor E p payloads of
        Inl e \<Rightarrow> True
      | Inr p' \<Rightarrow> proc_MediaType E p' = MediaTypeImageLayer)"
| "chain_stops E payloads (Suc n) p =
     (case GetProcessor E p payloads of
        Inl e \<Rightarrow> True
      | Inr p' \<Rightarrow> proc_MediaType E p' = MediaTypeImageLayer \<or> chain_stops E payloads n p')"

text \<open>
  \<open>resolves_to E payloads n p0 p\<close>: starting from the stream \<open>p0\<close>, the first \<open>n\<close> calls
  of \<open>GetProcessor\<close> return stages whose label is not the canonical one, and call
  \<open>n + 1\<close> returns the stage \<open>p\<close>, whose label is.
\<close>

fun resolves_to :: "('ra, 'p) env \<Rightarrow> (string \<rightharpoonup> string) \<Rightarrow> nat \<Rightarrow> 'p \<Rightarrow> 'p \<Rightarrow> bool" where
  "resolves_to E payloads 0 p0 p =
     (GetProcessor E p0 payloads = Inr p \<and> proc_MediaType E p = MediaTypeImageLayer)"
| "resolves_to E payloads (Suc n) p0 p =
     (case GetProcessor E p0 payloads of
        Inl e \<Rightarrow> False
      | Inr q \<Rightarrow> proc_MediaType E q \<noteq> MediaTypeImageLayer \<and> resolves_to E payloads n q p)"

text \<open>
  \<open>replay E p tr\<close> follows the reads of a trace on the processor \<open>p\<close>: it is the state
  of the processor after them when each read of the trace, in order, returned what
  \<open>Read\<close> of the processor returns in the state the reads before left it in, and
  \<open>None\<close> when one did not. Calls that are not reads are passed over.
\<close>

fun replay :: "('ra, 'p) env \<Rightarrow> 'p \<Rightarrow> ('ra, 'p) event list \<Rightarrow> 'p option" where
  "replay E p [] = Some p"
| "replay E p (EvProcRead n res # evs) =
     (if fst (proc_Read E p n) = res then replay E (snd (proc_Read E p n)) evs else None)"
| "replay E p (ev # evs) = replay E p evs"

text \<open>
  \<open>first_read_error E n p\<close>: the error of the first among \<open>n + 1\<close> reads of the
  processor \<open>p\<close>, each with a buffer of 8192 bytes, that returns one; \<open>None\<close> when
  none of them does.
\<close>

fun first_read_error :: "('ra, 'p) env \<Rightarrow> nat \<Rightarrow> 'p \<Rightarrow> error option" where
  "first_read_error E 0 p = snd (fst (proc_Read E p 8192))"
| "first_read_error E (Suc n) p =
     (case snd (fst (proc_Read E p 8192)) of
        Some e \<Rightarrow> Some e
      | None \<Rightarrow> first_read_error E n (snd (proc_Read E p 8192)))"

text \<open>
  The configuration after each option of a list has changed it in turn, whatever the
  options returned.
\<close>

definition opts_in_order :: "ApplyOpt list \<Rightarrow> Descriptor \<Rightarrow> ApplyConfig \<Rightarrow> ApplyConfig" where
  "opts_in_order opts desc config = foldl (\<lambda>cfg opt. fst (opt desc cfg)) config opts"

section \<open>Package auth: fetching a token (the second Go file in src/diff/apply/apply.go)\<close>

text \<open>
  The errors of package auth: the sentinel \<open>ErrNoToken\<close>, the struct
  \<open>ErrUnexpectedStatus{Status, StatusCode, Body}\<close>, \<open>errors.WithStack(e)\<close>,
  \<open>errors.Errorf\<close> with its formatted message, and an error of net/http.
\<close>

datatype auth_error =
    ErrNoToken
  | ErrUnexpectedStatus string int "byte list"
  | WithStack auth_error
  | Errorf string
  | HttpErr string

text \<open>
  What a call of \<open>FetchToken\<close> or \<open>FetchTokenWithOAuth\<close> does: it returns its pair
  \<open>(string, error)\<close>, or it panics.
\<close>

datatype fetch_outcome = Returned string "auth_error option" | Panicked

text \<open>
  \<open>http.Response\<close>. \<open>Body\<close> is \<open>None\<close> for a nil body and otherwise the bytes the body
  delivers until it ends or fails.
\<close>

record Response =
  Status :: string
  StatusCode :: int
  Body :: "byte list option"

text \<open>\<open>http.Header\<close> and \<open>url.Values\<close> are both \<open>map[string][]string\<close>.\<close>

type_synonym url_values = "string \<rightharpoonup> string list"

record Request =
  Method :: string
  URL :: string
  RawQuery :: string
  Header :: "url_values"
  ReqBody :: "string option"

record TokenOptions =
  Realm :: string
  Service :: string
  Scopes :: "string list"
  Username :: string
  Secret :: string

record postTokenResponse =
  AccessToken :: string
  RefreshToken :: string
  ExpiresIn :: int
  IssuedAt :: int
  Scope :: string

record getTokenResponse =
  Token :: string
  AccessToken :: string
  ExpiresIn :: int
  IssuedAt :: int
  RefreshToken :: string

text \<open>
  What the functions use of net/http, net/url and encoding/json: building a
  request, the round trip, \<open>url.Values.Encode\<close>, \<open>req.URL.Query()\<close>, the value
  \<open>SetBasicAuth\<close> stores, and decoding a body into each response struct (\<open>Inl\<close> is
  the text of the decoder's error).
\<close>

record http_env =
  http_NewRequest :: "string \<Rightarrow> string \<Rightarrow> string option \<Rightarrow> auth_error + Request"
  ctxhttp_Do :: "Request \<Rightarrow> auth_error + Response"
  url_Encode :: "url_values \<Rightarrow> string"
  url_Query :: "Request \<Rightarrow> url_values"
  basic_auth :: "string \<Rightarrow> string \<Rightarrow> string"
  json_Decode_post :: "byte list \<Rightarrow> string + postTokenResponse"
  json_Decode_get :: "byte list \<Rightarrow> string + getTokenResponse"

text \<open>
  \<open>newUnexpectedStatusErr\<close> (lines 173 to 179): \<open>ioutil.ReadAll(io.LimitReader(resp.Body,
  64000))\<close> with its error dropped is the first 64000 bytes the body delivers; a nil
  body leaves \<open>b\<close> nil.
\<close>

definition newUnexpectedStatusErr :: "Response \<Rightarrow> auth_error" where
  "newUnexpectedStatusErr resp =
     (let b = (case Body resp of None \<Rightarrow> [] | Some body \<Rightarrow> take 64000 body)
      in ErrUnexpectedStatus (Status resp) (StatusCode resp) b)"

text \<open>\<open>strings.Join\<close>, \<open>url.Values.Set\<close> and \<open>url.Values.Add\<close>.\<close>

fun strings_Join :: "string list \<Rightarrow> string \<Rightarrow> string" where
  "strings_Join [] sep = []"
| "strings_Join [x] sep = x"
| "strings_Join (x # y # ys) sep = x @ sep @ strings_Join (y # ys) sep"

definition values_Set :: "url_values \<Rightarrow> string \<Rightarrow> string \<Rightarrow> url_values" where
  "values_Set v k x = v(k \<mapsto> [x])"

definition values_Add :: "url_values \<Rightarrow> string \<Rightarrow> string \<Rightarrow> url_values" where
  "values_Add v k x = v(k \<mapsto> (case v k of None \<Rightarrow> [] | Some old \<Rightarrow> old) @ [x])"

text \<open>
  \<open>for k, v := range headers { req.Header[k] = append(req.Header[k], v...) }\<close>; a nil
  map of headers is the empty map.
\<close>

definition add_headers :: "url_values \<Rightarrow> url_values \<Rightarrow> url_values" where
  "add_headers headers h =
     (\<lambda>k. case headers k of
            None \<Rightarrow> h k
          | Some v \<Rightarrow> Some ((case h k of None \<Rightarrow> [] | Some old \<Rightarrow> old) @ v))"

text \<open>
  \<open>FetchTokenWithOAuth\<close>: the form it posts (lines 227 to 241) and what it does to the
  request (lines 247 to 252).
\<close>

definition oauth_form :: "string \<Rightarrow> TokenOptions \<Rightarrow> url_values" where
  "oauth_form clientID to =
     (let form0 = (if length (Scopes to) > 0
                   then values_Set Map.empty ''scope'' (strings_Join (Scopes to) '' '')
                   else Map.empty);
          form1 = values_Set form0 ''service'' (Service to);
          form2 = values_Set form1 ''client_id'' clientID
      in if Username to = []
         then values_Set (values_Set form2 ''grant_type'' ''refresh_token'')
                ''refresh_token'' (Secret to)
         else values_Set (values_Set (values_Set form2 ''grant_type'' ''password'')
                ''username'' (Username to)) ''password'' (Secret to))"

definition oauth_request :: "url_values \<Rightarrow> Request \<Rightarrow> Request" where
  "oauth_request headers req =
     (let req1 = req\<lparr>Header := values_Set (Header req) ''Content-Type''
                        ''application/x-www-form-urlencoded; charset=utf-8''\<rparr>
      in req1\<lparr>Header := add_headers headers (Header req1)\<rparr>)"

text \<open>
  \<open>FetchTokenWithOAuth\<close> from \<open>defer resp.Body.Close()\<close> on (lines 258 to 271). The
  \<open>defer\<close> statement on a nil body panics; the status check comes next, then the
  decoding.
\<close>

definition oauth_response :: "http_env \<Rightarrow> Response \<Rightarrow> fetch_outcome" where
  "oauth_response H resp =
     (case Body resp of
        None \<Rightarrow> Panicked
      | Some body \<Rightarrow>
          if StatusCode resp < 200 \<or> StatusCode resp \<ge> 400
          then Returned [] (Some (WithStack (newUnexpectedStatusErr resp)))
          else (case json_Decode_post H body of
                  Inl msg \<Rightarrow> Returned [] (Some (Errorf (''unable to decode token response: '' @ msg)))
                | Inr tr \<Rightarrow> Returned (postTokenResponse.AccessToken tr) None))"

definition FetchTokenWithOAuth ::
  "http_env \<Rightarrow> url_values \<Rightarrow> string \<Rightarrow> TokenOptions \<Rightarrow> fetch_outcome" where
  "FetchTokenWithOAuth H headers clientID to =
     (case http_NewRequest H ''POST'' (Realm to) (Some (url_Encode H (oauth_form clientID to))) of
        Inl e \<Rightarrow> Returned [] (Some e)
      | Inr req \<Rightarrow>
          (case ctxhttp_Do H (oauth_request headers req) of
             Inl e \<Rightarrow> Returned [] (Some e)
           | Inr resp \<Rightarrow> oauth_response H resp))"

text \<open>\<open>FetchToken\<close>: what it does to the request (lines 289 to 309).\<close>

definition token_request :: "http_env \<Rightarrow> url_values \<Rightarrow> TokenOptions \<Rightarrow> Request \<Rightarrow> Request" where
  "token_request H headers to req =
     (let req1 = req\<lparr>Header := add_headers headers (Header req)\<rparr>;
          reqParams0 = url_Query H req1;
          reqParams1 = (if Service to \<noteq> [] then values_Add reqParams0 ''service'' (Service to)
                        else reqParams0);
          reqParams2 = foldl (\<lambda>ps scope. values_Add ps ''scope'' scope) reqParams1 (Scopes to);
          req2 = (if Secret to \<noteq> []
                  then req1\<lparr>Header := values_Set (Header req1) ''Authorization''
                               (basic_auth H (Username to) (Secret to))\<rparr>
                  else req1)
      in req2\<lparr>RawQuery := url_Encode H reqParams2\<rparr>)"

text \<open>\<open>FetchToken\<close> from \<open>defer resp.Body.Close()\<close> on (lines 315 to 339).\<close>

definition token_response :: "http_env \<Rightarrow> Response \<Rightarrow> fetch_outcome" where
  "token_response H resp =
     (case Body resp of
        None \<Rightarrow> Panicked
      | Some body \<Rightarrow>
          if StatusCode resp < 200 \<or> StatusCode resp \<ge> 400
          then Returned [] (Some (WithStack (newUnexpectedStatusErr resp)))
          else (case json_Decode_get H body of
                  Inl msg \<Rightarrow> Returned [] (Some (Errorf (''unable to decode token response: '' @ msg)))
                | Inr tr \<Rightarrow>
                    (let tr1 = (if getTokenResponse.AccessToken tr \<noteq> []
                                then tr\<lparr>Token := getTokenResponse.AccessToken tr\<rparr>
                                else tr)
                     in if Token tr1 = [] then Returned [] (Some ErrNoToken)
                        else Returned (Token tr1) None)))"

definition FetchToken :: "http_env \<Rightarrow> url_values \<Rightarrow> TokenOptions \<Rightarrow> fetch_outcome" where
  "FetchToken H headers to =
     (case http_NewRequest H ''GET'' (Realm to) None of
        Inl e \<Rightarrow> Returned [] (Some e)
      | Inr req \<Rightarrow>
          (case ctxhttp_Do H (token_request H headers to req) of
             Inl e \<Rightarrow> Returned [] (Some e)
           | Inr resp \<Rightarrow> token_response H resp))"

section \<open>A small registry, store and archive to run the code on\<close>

text \<open>
  A processor is its label and the bytes still to be read. The registry decodes
  \<open>layer+gzip\<close> to the canonical label and \<open>layer+gzip+enc\<close> to \<open>layer+gzip\<close>; it
  turns \<open>blob+enc\<close> into \<open>blob\<close>, for which it has nothing; it maps \<open>loop\<close> to
  \<open>loop\<close>; and it decodes \<open>layer+rev\<close> to the canonical label by reversing the
  bytes, where the other decoders leave them as they are. The reader behaves like \<open>bytes.Reader\<close>. The archive reads three bytes and
  writes one file; the store holds five bytes, so two are trailing.
\<close>

type_synonym demo_proc = "string \<times> byte list"

definition demo_registry :: "demo_proc \<Rightarrow> (string \<rightharpoonup> string) \<Rightarrow> error + demo_proc" where
  "demo_registry p payloads =
     (if fst p = MediaTypeImageLayer then Inr p
      else if fst p = ''layer+gzip'' then Inr (MediaTypeImageLayer, snd p)
      else if fst p = ''layer+gzip+enc'' then Inr (''layer+gzip'', snd p)
      else if fst p = ''blob+enc'' then Inr (''blob'', snd p)
      else if fst p = ''loop'' then Inr (''loop'', snd p)
      else if fst p = ''layer+rev'' then Inr (MediaTypeImageLayer, rev (snd p))
      else Inl (Err ''no processor for media-type''))"

definition bytes_Read :: "demo_proc \<Rightarrow> nat \<Rightarrow> read_result \<times> demo_proc" where
  "bytes_Read p n =
     (if snd p = [] then (([], Some EOF), p)
      else ((take n (snd p), None), (fst p, drop n (snd p))))"

definition demo_extract :: "string \<Rightarrow> (64 word \<times> error option) consumer" where
  "demo_extract root =
     ReadReq 3 (\<lambda>res. if length (fst res) < 3 then Return (0, Some (Err ''short archive''))
                       else FsWrite (root @ ''/a'') (Return (3, None)))"

definition demo_env :: "(byte list, demo_proc) env" where
  "demo_env =
     \<lparr>store_ReaderAt = (\<lambda>desc. if Digest desc = ''sha256:D1'' then Inr [1, 2, 3, 0, 0]
                               else Inl (Err ''not found'')),
      NewProcessorChain = (\<lambda>mt ra. (mt, ra)),
      GetProcessor = demo_registry,
      proc_MediaType = fst,
      proc_Read = bytes_Read,
      proc_Close = (\<lambda>p. Some (Err ''close failed'')),
      mount_acquire = (\<lambda>mounts. if mounts = [] then Inl (Err ''no mounts'') else Inr ''/tmp/m''),
      mount_release = (\<lambda>root err. case err of None \<Rightarrow> None
                        | Some e \<Rightarrow> Some (Wrap e (''mount callback failed on '' @ root))),
      archive_Apply = demo_extract,
      canonical_digest = (\<lambda>bs. ''sha256:'' @ map (\<lambda>b. if b = 0 then CHR ''0'' else CHR ''1'') bs),
      time_Now = 100,
      time_Since = (\<lambda>t1. 105 - t1)\<rparr>"

definition demo_desc :: Descriptor where
  "demo_desc = \<lparr>MediaType = ''layer+gzip'', Digest = ''sha256:D1'', Size = 5\<rparr>"

text \<open>
  The same content under the label \<open>layer+rev\<close>; a store that holds it under the
  digest \<open>sha256:D2\<close> instead; and a processor whose stream breaks off when two bytes
  are left.
\<close>

definition demo_rev_desc :: Descriptor where
  "demo_rev_desc = \<lparr>MediaType = ''layer+rev'', Digest = ''sha256:D1'', Size = 5\<rparr>"

definition demo_store2 :: "Descriptor \<Rightarrow> error + byte list" where
  "demo_store2 desc =
     (if Digest desc = ''sha256:D2'' then Inr [1, 2, 3, 0, 0] else Inl (Err ''not found''))"

definition truncated_Read :: "demo_proc \<Rightarrow> nat \<Rightarrow> read_result \<times> demo_proc" where
  "truncated_Read p n =
     (if length (snd p) \<le> 2 then (([], Some (Err ''unexpected EOF'')), p)
      else ((take n (snd p), None), (fst p, drop n (snd p))))"

definition demo_env_truncated :: "(byte list, demo_proc) env" where
  "demo_env_truncated = demo_env\<lparr>proc_Read := truncated_Read\<rparr>"

text \<open>An option that fails, and one that sets a payload.\<close>

definition demo_bad_opt :: ApplyOpt where
  "demo_bad_opt desc config = (config, Some (Err ''bad payload''))"

definition demo_set_payload :: ApplyOpt where
  "demo_set_payload desc config =
     (config\<lparr>ProcessorPayloads := (ProcessorPayloads config)(''layer+gzip'' \<mapsto> ''level=9'')\<rparr>, None)"

text \<open>A token server that answers every request with the same response.\<close>

definition demo_http :: "Response \<Rightarrow> http_env" where
  "demo_http resp =
     \<lparr>http_NewRequest = (\<lambda>m u b. Inr \<lparr>Method = m, URL = u, RawQuery = [], Header = Map.empty,
                                        ReqBody = b\<rparr>),
      ctxhttp_Do = (\<lambda>req. Inr resp),
      url_Encode = (\<lambda>v. []),
      url_Query = (\<lambda>req. Map.empty),
      basic_auth = (\<lambda>u p. ''Basic '' @ u @ '':'' @ p),
      json_Decode_post = (\<lambda>body. if body = [] then Inl ''EOF''
         else Inr \<lparr>postTokenResponse.AccessToken = ''tok'', RefreshToken = [], ExpiresIn = 60,
                    IssuedAt = 0, Scope = []\<rparr>),
      json_Decode_get = (\<lambda>body. if body = [] then Inl ''EOF''
         else Inr \<lparr>Token = ''tok'', AccessToken = [], ExpiresIn = 60, IssuedAt = 0,
                    RefreshToken = []\<rparr>)\<rparr>"

definition demo_to :: TokenOptions where
  "demo_to = \<lparr>Realm = ''https://auth.example/token'', Service = ''registry'',
               Scopes = [''repository:a:pull''], Username = [], Secret = ''s3cret''\<rparr>"

section \<open>Properties\<close>

subsection \<open>The reader and the loops\<close>

lemma read_bytes_append: "read_bytes (xs @ ys) = read_bytes xs @ read_bytes ys"
  by (induction xs rule: read_bytes.induct) auto

lemma readCounter_Read_eq:
  "readCounter_Read E rc n =
     (fst (proc_Read E (tee_r (r rc)) n),
      \<lparr>r = \<lparr>tee_r = snd (proc_Read E (tee_r (r rc)) n),
             tee_w = tee_w (r rc) @ fst (fst (proc_Read E (tee_r (r rc)) n))\<rparr>,
       c = c rc + of_nat (length (fst (fst (proc_Read E (tee_r (r rc)) n))))\<rparr>)"
  by (simp add: readCounter_Read_def tee_Read_def split: prod.splits)

lemma run_consumer_acc:
  "run_consumer E k rc = (x, rc', evs) \<Longrightarrow>
     tee_w (r rc') = tee_w (r rc) @ read_bytes evs \<and>
     c rc' = c rc + of_nat (length (read_bytes evs))"
proof (induction k arbitrary: rc x rc' evs)
  case (Return y)
  then show ?case by simp
next
  case (ReadReq n k)
  obtain res rc1 where rd: "readCounter_Read E rc n = (res, rc1)"
    by (cases "readCounter_Read E rc n")
  obtain y rc2 evs2 where run: "run_consumer E (k res) rc1 = (y, rc2, evs2)"
    by (cases "run_consumer E (k res) rc1")
  from ReadReq.prems rd run have eqs: "x = y" "rc' = rc2" "evs = EvProcRead n res # evs2"
    by simp_all
  have ih: "tee_w (r rc2) = tee_w (r rc1) @ read_bytes evs2 \<and>
            c rc2 = c rc1 + of_nat (length (read_bytes evs2))"
    using ReadReq.IH [OF rangeI run] .
  from rd have "tee_w (r rc1) = tee_w (r rc) @ fst res"
    and "c rc1 = c rc + of_nat (length (fst res))"
    by (auto simp: readCounter_Read_eq)
  with ih eqs show ?case by simp
next
  case (FsWrite e k)
  then show ?case by (auto split: prod.splits)
qed

lemma drain_acc_aux:
  "drain E rc = Some y \<Longrightarrow>
     tee_w (r (fst (snd y))) = tee_w (r rc) @ read_bytes (snd (snd y)) \<and>
     c (fst (snd y)) = c rc + of_nat (length (read_bytes (snd (snd y))))"
proof (induction rule: drain.raw_induct [rotated 1, consumes 1])
  case (1 drain' E rc y)
  obtain res rc1 where rd: "readCounter_Read E rc 8192 = (res, rc1)"
    by (cases "readCounter_Read E rc 8192")
  from rd have acc1: "tee_w (r rc1) = tee_w (r rc) @ fst res"
    "c rc1 = c rc + of_nat (length (fst res))"
    by (auto simp: readCounter_Read_eq)
  show ?case
  proof (cases "snd res")
    case None
    with "1"(2) rd obtain z where z: "drain' E rc1 = Some z"
      and y: "y = (fst z, fst (snd z), EvProcRead 8192 res # snd (snd z))"
      by (auto simp: bind_eq_Some_conv split: prod.splits)
    from "1"(1) [OF z] acc1 y show ?thesis by simp
  next
    case (Some e)
    with "1"(2) rd acc1 show ?thesis by auto
  qed
qed

lemma drain_acc:
  "drain E rc = Some (err, rc', evs) \<Longrightarrow>
     tee_w (r rc') = tee_w (r rc) @ read_bytes evs \<and>
     c rc' = c rc + of_nat (length (read_bytes evs))"
  using drain_acc_aux [of E rc "(err, rc', evs)"] by simp

text \<open>A drain that reports nil has ended at a read that returned io.EOF.\<close>

lemma drain_ok_aux:
  "drain E rc = Some y \<Longrightarrow>
     snd (snd y) \<noteq> [] \<and>
     read_err (last (snd (snd y))) \<noteq> None \<and>
     fst y = (if read_err (last (snd (snd y))) = Some EOF then None
              else read_err (last (snd (snd y)))) \<and>
     list_all is_read (snd (snd y))"
proof (induction rule: drain.raw_induct [rotated 1, consumes 1])
  case (1 drain' E rc y)
  obtain res rc1 where rd: "readCounter_Read E rc 8192 = (res, rc1)"
    by (cases "readCounter_Read E rc 8192")
  show ?case
  proof (cases "snd res")
    case None
    with "1"(2) rd obtain z where z: "drain' E rc1 = Some z"
      and y: "y = (fst z, fst (snd z), EvProcRead 8192 res # snd (snd z))"
      by (auto simp: bind_eq_Some_conv split: prod.splits)
    from "1"(1) [OF z] y show ?thesis by simp
  next
    case (Some e)
    with "1"(2) rd show ?thesis by (cases res) auto
  qed
qed

lemma resolve_aux:
  "resolve E pl p = Some y \<Longrightarrow>
     list_all (\<lambda>ev. \<exists>q res. ev = EvGetProcessor q res) (snd y) \<and>
     (\<forall>q. fst y = Inr q \<longrightarrow> proc_MediaType E q = MediaTypeImageLayer)"
proof (induction rule: resolve.raw_induct [rotated 1, consumes 1])
  case (1 resolve' E pl p y)
  show ?case
  proof (cases "GetProcessor E p pl")
    case (Inl e)
    with "1"(2) show ?thesis by auto
  next
    case (Inr p')
    show ?thesis
    proof (cases "proc_MediaType E p' = MediaTypeImageLayer")
      case True
      with "1"(2) Inr show ?thesis by auto
    next
      case False
      with "1"(2) Inr obtain z where z: "resolve' E pl p' = Some z"
        and y: "y = (fst z, EvGetProcessor p (Inr p') # snd z)"
        by (auto simp: bind_eq_Some_conv split: prod.splits)
      from "1"(1) [OF z] y show ?thesis by simp
    qed
  qed
qed

lemma run_consumer_events:
  "run_consumer E k rc = (x, rc', evs) \<Longrightarrow>
     list_all (\<lambda>ev. is_read ev \<or> (\<exists>s. ev = EvFsWrite s)) evs"
proof (induction k arbitrary: rc x rc' evs)
  case (Return y)
  then show ?case by simp
next
  case (ReadReq n k)
  obtain res rc1 where rd: "readCounter_Read E rc n = (res, rc1)"
    by (cases "readCounter_Read E rc n")
  obtain y rc2 evs2 where run: "run_consumer E (k res) rc1 = (y, rc2, evs2)"
    by (cases "run_consumer E (k res) rc1")
  from ReadReq.prems rd run have eqs: "evs = EvProcRead n res # evs2"
    by simp
  with ReadReq.IH [OF rangeI run] show ?case by simp
next
  case (FsWrite e k)
  then show ?case by (auto split: prod.splits)
qed

subsection \<open>The exit paths of Apply\<close>

lemma WithTempMount_cases:
  assumes "WithTempMount E mounts (apply_callback E) rc0 = Some (err, rc, evs)"
  shows "(\<exists>e. mount_acquire E mounts = Inl e \<and> err = Some e \<and> rc = rc0 \<and> evs = [EvMount mounts]) \<or>
         (\<exists>root res rc1 evsx e. mount_acquire E mounts = Inr root \<and>
             run_consumer E (archive_Apply E root) rc0 = (res, rc1, evsx) \<and> snd res = Some e \<and>
             err = mount_release E root (Some e) \<and> rc = rc1 \<and>
             evs = EvMount mounts # EvExtract root # evsx @ [EvUnmount root]) \<or>
         (\<exists>root res rc1 evsx derr evsd. mount_acquire E mounts = Inr root \<and>
             run_consumer E (archive_Apply E root) rc0 = (res, rc1, evsx) \<and> snd res = None \<and>
             drain E rc1 = Some (derr, rc, evsd) \<and>
             err = mount_release E root derr \<and>
             evs = EvMount mounts # EvExtract root # evsx @ evsd @ [EvUnmount root])"
  using assms
  by (auto simp: WithTempMount_def apply_callback_def bind_eq_Some_conv
           split: sum.splits prod.splits option.splits)

lemma Apply_cases:
  assumes "Apply E desc mounts opts = Some ((d, err), tr)"
  shows "(\<exists>e. apply_opts opts desc config0 = Inl e \<and> d = emptyDesc \<and>
              err = Some (Wrap e ''failed to apply config opt'') \<and> tr = []) \<or>
         (\<exists>config e. apply_opts opts desc config0 = Inr config \<and> store_ReaderAt E desc = Inl e \<and>
              d = emptyDesc \<and> err = Some (Wrap e ''failed to get reader from content store'') \<and>
              tr = [EvReaderAt desc]) \<or>
         (\<exists>config ra e evs1. apply_opts opts desc config0 = Inr config \<and> store_ReaderAt E desc = Inr ra \<and>
              resolve E (ProcessorPayloads config) (NewProcessorChain E (MediaType desc) ra) = Some (Inl e, evs1) \<and>
              d = emptyDesc \<and>
              err = Some (Wrap e (''failed to get stream processor for '' @ MediaType desc)) \<and>
              tr = EvReaderAt desc # evs1 @ [EvReaderClose ra]) \<or>
         (\<exists>config ra p evs1 e rc evs2. apply_opts opts desc config0 = Inr config \<and> store_ReaderAt E desc = Inr ra \<and>
              resolve E (ProcessorPayloads config) (NewProcessorChain E (MediaType desc) ra) = Some (Inr p, evs1) \<and>
              WithTempMount E mounts (apply_callback E) \<lparr>r = \<lparr>tee_r = p, tee_w = []\<rparr>, c = 0\<rparr> = Some (Some e, rc, evs2) \<and>
              d = emptyDesc \<and> err = Some e \<and>
              tr = EvReaderAt desc # evs1 @ evs2 @
                   [EvProcClose (tee_r (r rc)) (proc_Close E (tee_r (r rc))), EvReaderClose ra]) \<or>
         (\<exists>config ra p evs1 rc evs2. apply_opts opts desc config0 = Inr config \<and> store_ReaderAt E desc = Inr ra \<and>
              resolve E (ProcessorPayloads config) (NewProcessorChain E (MediaType desc) ra) = Some (Inr p, evs1) \<and>
              WithTempMount E mounts (apply_callback E) \<lparr>r = \<lparr>tee_r = p, tee_w = []\<rparr>, c = 0\<rparr> = Some (None, rc, evs2) \<and>
              d = \<lparr>MediaType = MediaTypeImageLayer, Digest = canonical_digest E (tee_w (r rc)), Size = c rc\<rparr> \<and>
              err = None \<and>
              tr = EvReaderAt desc # evs1 @ evs2 @
                   [EvProcClose (tee_r (r rc)) (proc_Close E (tee_r (r rc))), EvReaderClose ra,
                    EvLog (time_Since E (time_Now E)) (Digest desc) (Size desc) (MediaType desc)])"
proof (cases "apply_opts opts desc config0")
  case (Inl e)
  with assms show ?thesis
    by (auto simp add: Apply_def Let_def returning_def deferred_log_def)
next
  case cfg: (Inr config)
  show ?thesis
  proof (cases "store_ReaderAt E desc")
    case (Inl e)
    with assms cfg show ?thesis
      by (auto simp add: Apply_def Let_def returning_def deferred_log_def)
  next
    case ra: (Inr ra)
    let ?p0 = "NewProcessorChain E (MediaType desc) ra"
    from assms cfg ra obtain res evs1
      where res: "resolve E (ProcessorPayloads config) ?p0 = Some (res, evs1)"
      by (auto simp: Apply_def Let_def bind_eq_Some_conv)
    show ?thesis
    proof (cases res)
      case (Inl e)
      with assms cfg ra res show ?thesis
        by (auto simp add: Apply_def Let_def returning_def deferred_log_def)
    next
      case p: (Inr p)
      let ?rc0 = "\<lparr>r = \<lparr>tee_r = p, tee_w = []\<rparr>, c = 0\<rparr>"
      from assms cfg ra res p obtain werr rc evs2
        where w: "WithTempMount E mounts (apply_callback E) ?rc0 = Some (werr, rc, evs2)"
        by (auto simp: Apply_def Let_def bind_eq_Some_conv)
      show ?thesis
      proof (cases werr)
        case None
        with assms cfg ra res p w show ?thesis
          by (auto simp add: Apply_def Let_def returning_def deferred_log_def)
      next
        case (Some e)
        with assms cfg ra res p w show ?thesis
          by (auto simp add: Apply_def Let_def returning_def deferred_log_def)
      qed
    qed
  qed
qed

subsection \<open>Runs of the small example\<close>

lemmas demo_simps =
  Apply_def demo_env_def demo_desc_def config0_def resolve.simps drain.simps
  demo_registry_def MediaTypeImageLayer_def WithTempMount_def apply_callback_def
  demo_extract_def readCounter_Read_def tee_Read_def bytes_Read_def returning_def
  deferred_log_def emptyDesc_def demo_bad_opt_def

lemma demo_run:
  "Apply demo_env demo_desc [''overlay''] [] =
     Some ((\<lparr>MediaType = MediaTypeImageLayer, Digest = ''sha256:11100'', Size = 5\<rparr>, None),
       [EvReaderAt demo_desc,
        EvGetProcessor (''layer+gzip'', [1, 2, 3, 0, 0]) (Inr (MediaTypeImageLayer, [1, 2, 3, 0, 0])),
        EvMount [''overlay''], EvExtract ''/tmp/m'', EvProcRead 3 ([1, 2, 3], None),
        EvFsWrite ''/tmp/m/a'', EvProcRead 8192 ([0, 0], None), EvProcRead 8192 ([], Some EOF),
        EvUnmount ''/tmp/m'', EvProcClose (MediaTypeImageLayer, []) (Some (Err ''close failed'')),
        EvReaderClose [1, 2, 3, 0, 0], EvLog 5 ''sha256:D1'' 5 ''layer+gzip''])"
  by (simp add: demo_simps)

lemma demo_run_no_mount:
  "Apply demo_env demo_desc [] [] =
     Some ((emptyDesc, Some (Err ''no mounts'')),
       [EvReaderAt demo_desc,
        EvGetProcessor (''layer+gzip'', [1, 2, 3, 0, 0]) (Inr (MediaTypeImageLayer, [1, 2, 3, 0, 0])),
        EvMount [],
        EvProcClose (MediaTypeImageLayer, [1, 2, 3, 0, 0]) (Some (Err ''close failed'')),
        EvReaderClose [1, 2, 3, 0, 0]])"
  by (simp add: demo_simps)

lemma demo_run_bad_opt:
  "Apply demo_env demo_desc [''overlay''] [demo_set_payload, demo_bad_opt, demo_set_payload] =
     Some ((emptyDesc, Some (Wrap (Err ''bad payload'') ''failed to apply config opt'')), [])"
  by (simp add: demo_simps demo_set_payload_def)

lemma demo_run_partway:
  "Apply demo_env (demo_desc\<lparr>MediaType := ''blob+enc''\<rparr>) [''overlay''] [] =
     Some ((emptyDesc,
            Some (Wrap (Err ''no processor for media-type'')
                    ''failed to get stream processor for blob+enc'')),
       [EvReaderAt (demo_desc\<lparr>MediaType := ''blob+enc''\<rparr>),
        EvGetProcessor (''blob+enc'', [1, 2, 3, 0, 0]) (Inr (''blob'', [1, 2, 3, 0, 0])),
        EvGetProcessor (''blob'', [1, 2, 3, 0, 0]) (Inl (Err ''no processor for media-type'')),
        EvReaderClose [1, 2, 3, 0, 0]])"
  by (simp add: demo_simps)

subsection \<open>What the parts leave in the trace\<close>

lemma read_bytes_no_reads: "list_all (\<lambda>ev. \<not> is_read ev) evs \<Longrightarrow> read_bytes evs = []"
  by (induction evs rule: read_bytes.induct) auto

lemma filter_empty_if:
  "list_all P evs \<Longrightarrow> (\<And>ev. P ev \<Longrightarrow> \<not> Q ev) \<Longrightarrow> filter Q evs = []"
  by (auto simp: list_all_iff filter_empty_conv)

lemma is_read_not: "is_read ev \<Longrightarrow> \<not> is_log ev \<and> \<not> is_close ev"
  by (cases ev) auto

lemma resolve_events:
  assumes "resolve E pl p = Some (res, evs)"
  shows "read_bytes evs = []" and "filter is_log evs = []" and "filter is_fs evs = []"
    and "filter is_close evs = []" and "filter is_read evs = []"
proof -
  from resolve_aux [OF assms]
  have all: "list_all (\<lambda>ev. \<exists>q res. ev = EvGetProcessor q res) evs" by simp
  then show "read_bytes evs = []"
    by (intro read_bytes_no_reads) (auto simp: list_all_iff)
  from all show "filter is_log evs = []" by (rule filter_empty_if) auto
  from all show "filter is_fs evs = []" by (rule filter_empty_if) auto
  from all show "filter is_close evs = []" by (rule filter_empty_if) auto
  from all show "filter is_read evs = []" by (rule filter_empty_if) auto
qed

lemma run_consumer_filters:
  assumes "run_consumer E k rc = (x, rc', evs)"
  shows "filter is_log evs = []" and "filter is_close evs = []"
proof -
  from run_consumer_events [OF assms]
  have all: "list_all (\<lambda>ev. is_read ev \<or> (\<exists>s. ev = EvFsWrite s)) evs" .
  from all show "filter is_log evs = []" by (rule filter_empty_if) (auto dest: is_read_not)
  from all show "filter is_close evs = []" by (rule filter_empty_if) (auto dest: is_read_not)
qed

lemma drain_filters:
  assumes "drain E rc = Some (err, rc', evs)"
  shows "filter is_log evs = []" and "filter is_close evs = []" and "filter is_read evs = evs"
    and "evs \<noteq> []" and "read_err (last evs) \<noteq> None"
    and "err = (if read_err (last evs) = Some EOF then None else read_err (last evs))"
proof -
  from drain_ok_aux [OF assms]
  have all: "list_all is_read evs" and ne: "evs \<noteq> []"
    and le: "read_err (last evs) \<noteq> None"
    and er: "err = (if read_err (last evs) = Some EOF then None else read_err (last evs))"
    by (auto split: if_splits)
  from all show "filter is_log evs = []" by (rule filter_empty_if) (auto dest: is_read_not)
  from all show "filter is_close evs = []" by (rule filter_empty_if) (auto dest: is_read_not)
  from all show "filter is_read evs = evs"
    by (auto simp: list_all_iff filter_id_conv)
  from ne show "evs \<noteq> []" .
  from le show "read_err (last evs) \<noteq> None" .
  from er show "err = (if read_err (last evs) = Some EOF then None else read_err (last evs))" .
qed

text \<open>What the mount phase leaves in the reader and in the trace.\<close>

lemma WithTempMount_acc:
  assumes "WithTempMount E mounts (apply_callback E) rc0 = Some (err, rc, evs)"
  shows "tee_w (r rc) = tee_w (r rc0) @ read_bytes evs \<and>
         c rc = c rc0 + of_nat (length (read_bytes evs)) \<and>
         filter is_log evs = [] \<and> filter is_close evs = []"
proof -
  consider
    (nomount) e where "mount_acquire E mounts = Inl e" "err = Some e" "rc = rc0"
      "evs = [EvMount mounts]"
  | (extraction_failed) root res evsx where
      "run_consumer E (archive_Apply E root) rc0 = (res, rc, evsx)"
      "evs = EvMount mounts # EvExtract root # evsx @ [EvUnmount root]"
  | (drained) root res rc1 evsx derr evsd where
      "run_consumer E (archive_Apply E root) rc0 = (res, rc1, evsx)"
      "drain E rc1 = Some (derr, rc, evsd)"
      "evs = EvMount mounts # EvExtract root # evsx @ evsd @ [EvUnmount root]"
    using WithTempMount_cases [OF assms] by blast
  then show ?thesis
  proof cases
    case nomount
    then show ?thesis by simp
  next
    case extraction_failed
    from run_consumer_acc [OF extraction_failed(1)] run_consumer_filters [OF extraction_failed(1)] extraction_failed(2)
    show ?thesis by (simp add: read_bytes_append)
  next
    case drained
    from run_consumer_acc [OF drained(1)] run_consumer_filters [OF drained(1)]
      drain_acc [OF drained(2)] drain_filters(1,2) [OF drained(2)] drained(3)
    show ?thesis by (simp add: read_bytes_append)
  qed
qed

lemma Apply_success:
  assumes "Apply E desc mounts opts = Some ((d, None), tr)"
  obtains config ra p evs1 rc evs2 where
    "apply_opts opts desc config0 = Inr config" and "store_ReaderAt E desc = Inr ra"
    and "resolve E (ProcessorPayloads config) (NewProcessorChain E (MediaType desc) ra) =
           Some (Inr p, evs1)"
    and "WithTempMount E mounts (apply_callback E) \<lparr>r = \<lparr>tee_r = p, tee_w = []\<rparr>, c = 0\<rparr> =
           Some (None, rc, evs2)"
    and "d = \<lparr>MediaType = MediaTypeImageLayer, Digest = canonical_digest E (tee_w (r rc)),
              Size = c rc\<rparr>"
    and "tr = EvReaderAt desc # evs1 @ evs2 @
              [EvProcClose (tee_r (r rc)) (proc_Close E (tee_r (r rc))), EvReaderClose ra,
               EvLog (time_Since E (time_Now E)) (Digest desc) (Size desc) (MediaType desc)]"
  using Apply_cases [OF assms] by auto

lemma Apply_success_reads:
  assumes "Apply E desc mounts opts = Some ((d, None), tr)"
  shows "d = \<lparr>MediaType = MediaTypeImageLayer, Digest = canonical_digest E (read_bytes tr),
              Size = of_nat (length (read_bytes tr))\<rparr>"
proof (rule Apply_success [OF assms])
  fix config ra p evs1 rc evs2
  assume res: "resolve E (ProcessorPayloads config) (NewProcessorChain E (MediaType desc) ra) =
           Some (Inr p, evs1)"
    and w: "WithTempMount E mounts (apply_callback E) \<lparr>r = \<lparr>tee_r = p, tee_w = []\<rparr>, c = 0\<rparr> =
           Some (None, rc, evs2)"
    and d: "d = \<lparr>MediaType = MediaTypeImageLayer, Digest = canonical_digest E (tee_w (r rc)),
              Size = c rc\<rparr>"
    and tr: "tr = EvReaderAt desc # evs1 @ evs2 @
              [EvProcClose (tee_r (r rc)) (proc_Close E (tee_r (r rc))), EvReaderClose ra,
               EvLog (time_Since E (time_Now E)) (Digest desc) (Size desc) (MediaType desc)]"
  from tr resolve_events(1) [OF res] have "read_bytes tr = read_bytes evs2"
    by (simp add: read_bytes_append)
  with WithTempMount_acc [OF w] d show ?thesis by simp
qed

lemma sint_of_nat_small:
  "n < 2 ^ 63 \<Longrightarrow> sint (of_nat n :: 64 word) = int n"
  by (simp add: signed_of_nat signed_take_bit_int_eq_self)

lemma Apply_success_last_read:
  assumes ap: "Apply E desc mounts opts = Some ((d, None), tr)"
    and rel: "\<And>root e. mount_release E root (Some e) \<noteq> None"
  shows "filter is_read tr \<noteq> [] \<and> read_err (last (filter is_read tr)) = Some EOF"
proof (rule Apply_success [OF ap])
  fix config ra p evs1 rc evs2
  assume res: "resolve E (ProcessorPayloads config) (NewProcessorChain E (MediaType desc) ra) =
           Some (Inr p, evs1)"
    and w: "WithTempMount E mounts (apply_callback E) \<lparr>r = \<lparr>tee_r = p, tee_w = []\<rparr>, c = 0\<rparr> =
           Some (None, rc, evs2)"
    and tr: "tr = EvReaderAt desc # evs1 @ evs2 @
              [EvProcClose (tee_r (r rc)) (proc_Close E (tee_r (r rc))), EvReaderClose ra,
               EvLog (time_Since E (time_Now E)) (Digest desc) (Size desc) (MediaType desc)]"
  have rel': "None \<noteq> mount_release E root (Some e)" for root e
    using rel [of root e] by (cases "mount_release E root (Some e)") simp_all
  from WithTempMount_cases [OF w]
  obtain root rc1 evsx derr evsd where
    dr: "drain E rc1 = Some (derr, rc, evsd)" and mr: "None = mount_release E root derr"
    and evs2: "evs2 = EvMount mounts # EvExtract root # evsx @ evsd @ [EvUnmount root]"
    by (auto simp: rel')
  from mr rel' have derr: "derr = None" by (cases derr) auto
  from drain_filters [OF dr] derr
  have ne: "evsd \<noteq> []" and id: "filter is_read evsd = evsd"
    and eof: "read_err (last evsd) = Some EOF"
    by (auto split: if_splits)
  from tr evs2 resolve_events(5) [OF res] id
  have "filter is_read tr = filter is_read evsx @ evsd" by simp
  with ne eof show ?thesis by simp
qed

subsection \<open>The loop over the options\<close>

lemma opts_in_order_Cons:
  "opts_in_order (opt # opts) desc cfg = opts_in_order opts desc (fst (opt desc cfg))"
  by (simp add: opts_in_order_def)

lemma apply_opts_all_succeed:
  "\<forall>i<length opts. snd ((opts ! i) desc (opts_in_order (take i opts) desc cfg)) = None \<Longrightarrow>
     apply_opts opts desc cfg = Inr (opts_in_order opts desc cfg)"
proof (induction opts arbitrary: cfg)
  case Nil
  then show ?case by (simp add: opts_in_order_def)
next
  case (Cons opt opts)
  from Cons.prems [rule_format, of 0] have first: "snd (opt desc cfg) = None"
    by (simp add: opts_in_order_def)
  have "\<forall>i<length opts.
          snd ((opts ! i) desc (opts_in_order (take i opts) desc (fst (opt desc cfg)))) = None"
  proof (intro allI impI)
    fix i assume "i < length opts"
    with Cons.prems [rule_format, of "Suc i"] show
      "snd ((opts ! i) desc (opts_in_order (take i opts) desc (fst (opt desc cfg)))) = None"
      by (simp add: opts_in_order_Cons)
  qed
  from Cons.IH [OF this] first show ?case
    by (cases "opt desc cfg") (simp add: opts_in_order_Cons)
qed

lemma apply_opts_append:
  "apply_opts (xs @ ys) desc cfg =
     (case apply_opts xs desc cfg of Inl e \<Rightarrow> Inl e | Inr cfg' \<Rightarrow> apply_opts ys desc cfg')"
  by (induction xs arbitrary: cfg) (auto split: prod.splits option.splits)

subsection \<open>When the resolution loop ends\<close>

lemma resolve_stops:
  "chain_stops E pl n p \<Longrightarrow> \<exists>y. resolve E pl p = Some y"
proof (induction n arbitrary: p)
  case 0
  then show ?case
    by (subst resolve.simps) (auto split: sum.splits)
next
  case (Suc n)
  show ?case
  proof (cases "GetProcessor E p pl")
    case (Inl e)
    then show ?thesis by (subst resolve.simps) simp
  next
    case (Inr p')
    show ?thesis
    proof (cases "proc_MediaType E p' = MediaTypeImageLayer")
      case True
      with Inr show ?thesis by (subst resolve.simps) simp
    next
      case False
      with Suc.prems Inr have "chain_stops E pl n p'" by simp
      from Suc.IH [OF this] obtain y where "resolve E pl p' = Some y" ..
      with Inr False show ?thesis
        by (subst resolve.simps) (cases y, simp)
    qed
  qed
qed

lemma resolve_Some_stops:
  "resolve E pl p = Some y \<Longrightarrow> \<exists>n. chain_stops E pl n p"
proof (induction rule: resolve.raw_induct [rotated 1, consumes 1])
  case (1 resolve' E pl p y)
  show ?case
  proof (cases "GetProcessor E p pl")
    case (Inl e)
    then have "chain_stops E pl 0 p" by simp
    then show ?thesis ..
  next
    case (Inr p')
    show ?thesis
    proof (cases "proc_MediaType E p' = MediaTypeImageLayer")
      case True
      with Inr have "chain_stops E pl 0 p" by simp
      then show ?thesis ..
    next
      case False
      with "1"(2) Inr obtain z where "resolve' E pl p' = Some z"
        by (auto simp: bind_eq_Some_conv)
      from "1"(1) [OF this] obtain n where "chain_stops E pl n p'" ..
      with Inr have "chain_stops E pl (Suc n) p" by simp
      then show ?thesis ..
    qed
  qed
qed

lemma resolve_None_iff:
  "resolve E pl p = None \<longleftrightarrow> (\<forall>n. \<not> chain_stops E pl n p)"
  using resolve_stops [of E pl _ p] resolve_Some_stops [of E pl p]
  by (cases "resolve E pl p") auto

lemma Apply_unresolved:
  assumes "apply_opts opts desc config0 = Inr cfg" and "store_ReaderAt E desc = Inr ra"
    and "resolve E (ProcessorPayloads cfg) (NewProcessorChain E (MediaType desc) ra) = None"
  shows "Apply E desc mounts opts = None"
  using assms by (simp add: Apply_def)

lemma demo_env_sel:
  "GetProcessor demo_env = demo_registry"
  "proc_MediaType demo_env = fst"
  "NewProcessorChain demo_env mt ra = (mt, ra)"
  "store_ReaderAt demo_env desc =
     (if Digest desc = ''sha256:D1'' then Inr [1, 2, 3, 0, 0] else Inl (Err ''not found''))"
  by (simp_all add: demo_env_def)

lemma demo_loop_never_stops:
  "\<not> chain_stops demo_env pl n (''loop'', bs)"
  by (induction n) (simp_all add: demo_env_sel demo_registry_def MediaTypeImageLayer_def)

lemma demo_loop_unresolved:
  "resolve demo_env pl (''loop'', bs) = None"
  by (simp add: resolve_None_iff demo_loop_never_stops)

subsection \<open>What depends on the environment\<close>

lemma option_eqI:
  "(\<And>y. a = Some y \<Longrightarrow> b = Some y) \<Longrightarrow> (\<And>y. b = Some y \<Longrightarrow> a = Some y) \<Longrightarrow> a = b"
  by (cases a; cases b) auto

lemma readCounter_Read_env:
  "proc_Read E' = proc_Read E \<Longrightarrow> readCounter_Read E' rc n = readCounter_Read E rc n"
  by (simp add: readCounter_Read_def tee_Read_def)

lemma run_consumer_env:
  "proc_Read E' = proc_Read E \<Longrightarrow> run_consumer E' k rc = run_consumer E k rc"
  by (induction k arbitrary: rc) (simp_all add: readCounter_Read_env [of E' E] split: prod.splits)

lemma drain_env_aux:
  "drain E' rc = Some y \<Longrightarrow> proc_Read E' = proc_Read E \<Longrightarrow> drain E rc = Some y"
proof (induction rule: drain.raw_induct [rotated 1, consumes 1])
  case (1 drain' E' rc y)
  obtain res rc1 where rd: "readCounter_Read E' rc 8192 = (res, rc1)"
    by (cases "readCounter_Read E' rc 8192")
  with readCounter_Read_env [OF "1.prems"] have rd': "readCounter_Read E rc 8192 = (res, rc1)"
    by simp
  show ?case
  proof (cases "snd res")
    case None
    with "1"(2) rd obtain z where z: "drain' E' rc1 = Some z"
      and y: "y = (fst z, fst (snd z), EvProcRead 8192 res # snd (snd z))"
      by (auto simp: bind_eq_Some_conv split: prod.splits)
    from "1"(1) [OF z "1.prems"] have "drain E rc1 = Some z" .
    with rd' None y show ?thesis
      by (subst drain.simps) (simp split: prod.splits)
  next
    case (Some e)
    with "1"(2) rd rd' show ?thesis
      by (subst drain.simps) simp
  qed
qed

lemma drain_env:
  assumes "proc_Read E' = proc_Read E"
  shows "drain E' rc = drain E rc"
proof (rule option_eqI)
  fix y assume "drain E' rc = Some y"
  then show "drain E rc = Some y" using assms by (rule drain_env_aux)
next
  fix y assume "drain E rc = Some y"
  then show "drain E' rc = Some y" using assms [symmetric] by (rule drain_env_aux)
qed

lemma resolve_env_aux:
  "resolve E' pl p = Some y \<Longrightarrow> GetProcessor E' = GetProcessor E \<Longrightarrow>
     proc_MediaType E' = proc_MediaType E \<Longrightarrow> resolve E pl p = Some y"
proof (induction rule: resolve.raw_induct [rotated 1, consumes 1])
  case (1 resolve' E' pl p y)
  show ?case
  proof (cases "GetProcessor E' p pl")
    case (Inl e)
    with "1"(2) "1.prems" show ?thesis
      by (subst resolve.simps) simp
  next
    case (Inr p')
    show ?thesis
    proof (cases "proc_MediaType E' p' = MediaTypeImageLayer")
      case True
      with "1"(2) "1.prems" Inr show ?thesis
        by (subst resolve.simps) simp
    next
      case False
      with "1"(2) Inr obtain z where z: "resolve' E' pl p' = Some z"
        and y: "y = (fst z, EvGetProcessor p (Inr p') # snd z)"
        by (auto simp: bind_eq_Some_conv split: prod.splits)
      from "1"(1) [OF z "1.prems"] have "resolve E pl p' = Some z" .
      with "1.prems" Inr False y show ?thesis
        by (subst resolve.simps) (simp split: prod.splits)
    qed
  qed
qed

lemma resolve_env:
  assumes "GetProcessor E' = GetProcessor E" and "proc_MediaType E' = proc_MediaType E"
  shows "resolve E' pl p = resolve E pl p"
proof (rule option_eqI)
  fix y assume "resolve E' pl p = Some y"
  then show "resolve E pl p = Some y" using assms by (rule resolve_env_aux)
next
  fix y assume "resolve E pl p = Some y"
  then show "resolve E' pl p = Some y" using assms [symmetric] by (rule resolve_env_aux)
qed

text \<open>What \<open>Close\<close> of a processor returns has no part in what \<open>Apply\<close> returns.\<close>

lemma Apply_proc_Close_irrelevant:
  "map_option fst (Apply (E\<lparr>proc_Close := f\<rparr>) desc mounts opts) =
   map_option fst (Apply E desc mounts opts)"
proof -
  let ?E' = "E\<lparr>proc_Close := f\<rparr>"
  have res: "resolve ?E' pl p = resolve E pl p" for pl p
    by (rule resolve_env) simp_all
  have dr: "drain ?E' rc = drain E rc" for rc
    by (rule drain_env) simp
  have run: "run_consumer ?E' k rc = run_consumer E k rc" for k :: "(64 word \<times> error option) consumer" and rc
    by (rule run_consumer_env) simp
  have "apply_callback ?E' root rc = apply_callback E root rc" for root rc
    by (simp add: apply_callback_def run dr cong: prod.case_cong option.case_cong)
  then have cb: "apply_callback ?E' = apply_callback E" by (intro ext)
  have w: "WithTempMount ?E' mounts (apply_callback E) rc = WithTempMount E mounts (apply_callback E) rc"
    for rc
    by (simp add: WithTempMount_def cong: sum.case_cong)
  show ?thesis
  proof (cases "apply_opts opts desc config0")
    case (Inl e)
    then show ?thesis by (simp add: Apply_def returning_def)
  next
    case cfg: (Inr config)
    show ?thesis
    proof (cases "store_ReaderAt E desc")
      case (Inl e)
      with cfg show ?thesis by (simp add: Apply_def returning_def)
    next
      case ra: (Inr ra)
      show ?thesis
      proof (cases "resolve E (ProcessorPayloads config) (NewProcessorChain E (MediaType desc) ra)")
        case None
        with cfg ra show ?thesis by (simp add: Apply_def res)
      next
        case (Some y)
        obtain rs evs1 where y: "y = (rs, evs1)" by (cases y)
        show ?thesis
        proof (cases rs)
          case (Inl e)
          with cfg ra Some y show ?thesis by (simp add: Apply_def returning_def res)
        next
          case p: (Inr p)
          show ?thesis
          proof (cases "WithTempMount E mounts (apply_callback E) \<lparr>r = \<lparr>tee_r = p, tee_w = []\<rparr>, c = 0\<rparr>")
            case None
            with cfg ra Some y p show ?thesis by (simp add: Apply_def res cb w)
          next
            case w': (Some z)
            obtain werr rc evs2 where z: "z = (werr, rc, evs2)" by (cases z)
            from cfg ra Some y p w' z show ?thesis
              by (cases werr) (simp_all add: Apply_def Let_def returning_def res cb w)
          qed
        qed
      qed
    qed
  qed
qed

lemma demo_run_two_stages:
  "Apply demo_env (demo_desc\<lparr>MediaType := ''layer+gzip+enc''\<rparr>) [''overlay''] [] =
     Some ((\<lparr>MediaType = MediaTypeImageLayer, Digest = ''sha256:11100'', Size = 5\<rparr>, None),
       [EvReaderAt (demo_desc\<lparr>MediaType := ''layer+gzip+enc''\<rparr>),
        EvGetProcessor (''layer+gzip+enc'', [1, 2, 3, 0, 0]) (Inr (''layer+gzip'', [1, 2, 3, 0, 0])),
        EvGetProcessor (''layer+gzip'', [1, 2, 3, 0, 0]) (Inr (MediaTypeImageLayer, [1, 2, 3, 0, 0])),
        EvMount [''overlay''], EvExtract ''/tmp/m'', EvProcRead 3 ([1, 2, 3], None),
        EvFsWrite ''/tmp/m/a'', EvProcRead 8192 ([0, 0], None), EvProcRead 8192 ([], Some EOF),
        EvUnmount ''/tmp/m'', EvProcClose (MediaTypeImageLayer, []) (Some (Err ''close failed'')),
        EvReaderClose [1, 2, 3, 0, 0], EvLog 5 ''sha256:D1'' 5 ''layer+gzip+enc''])"
  by (simp add: demo_simps)

subsection \<open>The token server of the example\<close>

lemma demo_http_sel:
  "http_NewRequest (demo_http resp) m u b =
     Inr \<lparr>Method = m, URL = u, RawQuery = [], Header = Map.empty, ReqBody = b\<rparr>"
  "ctxhttp_Do (demo_http resp) req = Inr resp"
  "json_Decode_post (demo_http resp) [1, 2] =
     Inr \<lparr>postTokenResponse.AccessToken = ''tok'', RefreshToken = [], ExpiresIn = 60,
          IssuedAt = 0, Scope = []\<rparr>"
  "json_Decode_get (demo_http resp) [1, 2] =
     Inr \<lparr>Token = ''tok'', AccessToken = [], ExpiresIn = 60, IssuedAt = 0, RefreshToken = []\<rparr>"
  by (simp_all add: demo_http_def)

subsection \<open>The reads are those of the resolved stage; the loops end\<close>

lemma replay_append:
  "replay E p (xs @ ys) = (case replay E p xs of None \<Rightarrow> None | Some p' \<Rightarrow> replay E p' ys)"
  by (induction E p xs rule: replay.induct) auto

lemma replay_no_reads:
  "filter is_read evs = [] \<Longrightarrow> replay E p evs = Some p"
  by (induction E p evs rule: replay.induct) (auto split: if_splits)

lemma replay_filter_reads:
  "replay E p (filter is_read evs) = replay E p evs"
  by (induction E p evs rule: replay.induct) auto

lemma run_consumer_replay:
  "run_consumer E k rc = (x, rc', evs) \<Longrightarrow> replay E (tee_r (r rc)) evs = Some (tee_r (r rc'))"
proof (induction k arbitrary: rc x rc' evs)
  case (Return y)
  then show ?case by simp
next
  case (ReadReq n k)
  obtain res rc1 where rd: "readCounter_Read E rc n = (res, rc1)"
    by (cases "readCounter_Read E rc n")
  obtain y rc2 evs2 where run: "run_consumer E (k res) rc1 = (y, rc2, evs2)"
    by (cases "run_consumer E (k res) rc1")
  from ReadReq.prems rd run have eqs: "rc' = rc2" "evs = EvProcRead n res # evs2"
    by simp_all
  from rd have "fst (proc_Read E (tee_r (r rc)) n) = res"
    and "tee_r (r rc1) = snd (proc_Read E (tee_r (r rc)) n)"
    by (auto simp: readCounter_Read_eq)
  with ReadReq.IH [OF rangeI run] eqs show ?case by simp
next
  case (FsWrite e k)
  then show ?case by (auto split: prod.splits)
qed

lemma drain_replay_aux:
  "drain E rc = Some y \<Longrightarrow> replay E (tee_r (r rc)) (snd (snd y)) = Some (tee_r (r (fst (snd y))))"
proof (induction rule: drain.raw_induct [rotated 1, consumes 1])
  case (1 drain' E rc y)
  obtain res rc1 where rd: "readCounter_Read E rc 8192 = (res, rc1)"
    by (cases "readCounter_Read E rc 8192")
  from rd have st: "fst (proc_Read E (tee_r (r rc)) 8192) = res"
    "tee_r (r rc1) = snd (proc_Read E (tee_r (r rc)) 8192)"
    by (auto simp: readCounter_Read_eq)
  show ?case
  proof (cases "snd res")
    case None
    with "1"(2) rd obtain z where z: "drain' E rc1 = Some z"
      and y: "y = (fst z, fst (snd z), EvProcRead 8192 res # snd (snd z))"
      by (auto simp: bind_eq_Some_conv split: prod.splits)
    from "1"(1) [OF z] st y show ?thesis by simp
  next
    case (Some e)
    with "1"(2) rd st show ?thesis by auto
  qed
qed

lemma drain_replay:
  "drain E rc = Some (err, rc', evs) \<Longrightarrow> replay E (tee_r (r rc)) evs = Some (tee_r (r rc'))"
  using drain_replay_aux [of E rc "(err, rc', evs)"] by simp

lemma WithTempMount_replay:
  assumes "WithTempMount E mounts (apply_callback E) rc0 = Some (err, rc, evs)"
  shows "replay E (tee_r (r rc0)) evs = Some (tee_r (r rc))"
proof -
  consider
    (nomount) "rc = rc0" "evs = [EvMount mounts]"
  | (extraction_failed) root res evsx where
      "run_consumer E (archive_Apply E root) rc0 = (res, rc, evsx)"
      "evs = EvMount mounts # EvExtract root # evsx @ [EvUnmount root]"
  | (drained) root res rc1 evsx derr evsd where
      "run_consumer E (archive_Apply E root) rc0 = (res, rc1, evsx)"
      "drain E rc1 = Some (derr, rc, evsd)"
      "evs = EvMount mounts # EvExtract root # evsx @ evsd @ [EvUnmount root]"
    using WithTempMount_cases [OF assms] by blast
  then show ?thesis
  proof cases
    case nomount
    then show ?thesis by simp
  next
    case extraction_failed
    from run_consumer_replay [OF extraction_failed(1)] extraction_failed(2)
    show ?thesis by (simp add: replay_append)
  next
    case drained
    from run_consumer_replay [OF drained(1)] drain_replay [OF drained(2)] drained(3)
    show ?thesis by (simp add: replay_append)
  qed
qed

lemma resolve_resolves_to:
  "resolve E pl p0 = Some y \<Longrightarrow> fst y = Inr p \<Longrightarrow> \<exists>n. resolves_to E pl n p0 p"
proof (induction arbitrary: p rule: resolve.raw_induct [rotated 1, consumes 1])
  case (1 resolve' E pl p0 y)
  show ?case
  proof (cases "GetProcessor E p0 pl")
    case (Inl e)
    with "1"(2) "1.prems" show ?thesis by auto
  next
    case (Inr q)
    show ?thesis
    proof (cases "proc_MediaType E q = MediaTypeImageLayer")
      case True
      with "1"(2) "1.prems" Inr have "resolves_to E pl 0 p0 p" by auto
      then show ?thesis ..
    next
      case False
      with "1"(2) Inr obtain z where z: "resolve' E pl q = Some z"
        and y: "y = (fst z, EvGetProcessor p0 (Inr q) # snd z)"
        by (auto simp: bind_eq_Some_conv split: prod.splits)
      from y "1.prems" have "fst z = Inr p" by simp
      from "1"(1) [OF z this] obtain n where "resolves_to E pl n q p" ..
      with Inr False have "resolves_to E pl (Suc n) p0 p" by simp
      then show ?thesis ..
    qed
  qed
qed

lemma resolves_to_resolve:
  "resolves_to E pl n p0 p \<Longrightarrow> \<exists>evs. resolve E pl p0 = Some (Inr p, evs)"
proof (induction n arbitrary: p0)
  case 0
  then show ?case by (subst resolve.simps) simp
next
  case (Suc n)
  then obtain q where q: "GetProcessor E p0 pl = Inr q"
    and nc: "proc_MediaType E q \<noteq> MediaTypeImageLayer" and rt: "resolves_to E pl n q p"
    by (auto split: sum.splits)
  from Suc.IH [OF rt] obtain evs where "resolve E pl q = Some (Inr p, evs)" ..
  with q nc show ?case by (subst resolve.simps) simp
qed

lemma resolves_to_canonical:
  "resolves_to E pl n p0 p \<Longrightarrow> proc_MediaType E p = MediaTypeImageLayer"
  by (induction n arbitrary: p0) (auto split: sum.splits)

lemma drain_first_read_error:
  "first_read_error E n (tee_r (r rc)) = Some e \<Longrightarrow>
     \<exists>rc' evs. drain E rc = Some (if e = EOF then None else Some e, rc', evs)"
proof (induction n arbitrary: rc)
  case 0
  obtain res rc1 where rd: "readCounter_Read E rc 8192 = (res, rc1)"
    by (cases "readCounter_Read E rc 8192")
  with 0 have "snd res = Some e" by (simp add: readCounter_Read_eq)
  with rd show ?case by (subst drain.simps) simp
next
  case (Suc n)
  obtain res rc1 where rd: "readCounter_Read E rc 8192 = (res, rc1)"
    by (cases "readCounter_Read E rc 8192")
  then have st: "fst (proc_Read E (tee_r (r rc)) 8192) = res"
    "tee_r (r rc1) = snd (proc_Read E (tee_r (r rc)) 8192)"
    by (auto simp: readCounter_Read_eq)
  show ?case
  proof (cases "snd res")
    case None
    with Suc.prems st have "first_read_error E n (tee_r (r rc1)) = Some e" by simp
    from Suc.IH [OF this] obtain rc' evs
      where "drain E rc1 = Some (if e = EOF then None else Some e, rc', evs)" by blast
    with rd None show ?thesis by (subst drain.simps) simp
  next
    case (Some e')
    with Suc.prems st have "e' = e" by simp
    with rd Some show ?thesis by (subst drain.simps) simp
  qed
qed

lemma Apply_success_tied:
  assumes "Apply E desc mounts opts = Some ((d, None), tr)"
  shows "\<exists>cfg ra p n pf.
           apply_opts opts desc config0 = Inr cfg \<and> store_ReaderAt E desc = Inr ra \<and>
           resolves_to E (ProcessorPayloads cfg) n (NewProcessorChain E (MediaType desc) ra) p \<and>
           proc_MediaType E p = MediaTypeImageLayer \<and>
           replay E p tr = Some pf \<and> EvProcClose pf (proc_Close E pf) \<in> set tr"
proof (rule Apply_success [OF assms])
  fix config ra p evs1 rc evs2
  assume cfg: "apply_opts opts desc config0 = Inr config" and ra: "store_ReaderAt E desc = Inr ra"
    and res: "resolve E (ProcessorPayloads config) (NewProcessorChain E (MediaType desc) ra) =
           Some (Inr p, evs1)"
    and w: "WithTempMount E mounts (apply_callback E) \<lparr>r = \<lparr>tee_r = p, tee_w = []\<rparr>, c = 0\<rparr> =
           Some (None, rc, evs2)"
    and tr: "tr = EvReaderAt desc # evs1 @ evs2 @
              [EvProcClose (tee_r (r rc)) (proc_Close E (tee_r (r rc))), EvReaderClose ra,
               EvLog (time_Since E (time_Now E)) (Digest desc) (Size desc) (MediaType desc)]"
  from resolve_resolves_to [OF res] obtain n where
    rt: "resolves_to E (ProcessorPayloads config) n (NewProcessorChain E (MediaType desc) ra) p"
    by auto
  from resolve_events(5) [OF res] have r1: "replay E p evs1 = Some p"
    by (rule replay_no_reads)
  from WithTempMount_replay [OF w] have r2: "replay E p evs2 = Some (tee_r (r rc))" by simp
  from tr r1 r2 have "replay E p tr = Some (tee_r (r rc))"
    by (simp add: replay_append)
  moreover from tr have "EvProcClose (tee_r (r rc)) (proc_Close E (tee_r (r rc))) \<in> set tr"
    by simp
  ultimately show ?thesis
    using cfg ra rt resolves_to_canonical [OF rt] by blast
qed

text \<open>
  Which store hands out the reader, and under which digest and size, has no part in
  what \<open>Apply\<close> returns.
\<close>

lemma Apply_store_irrelevant:
  assumes st: "s' desc' = store_ReaderAt E desc" and mt: "MediaType desc' = MediaType desc"
    and op: "apply_opts opts desc' config0 = apply_opts opts desc config0"
  shows "map_option fst (Apply (E\<lparr>store_ReaderAt := s'\<rparr>) desc' mounts opts) =
         map_option fst (Apply E desc mounts opts)"
proof -
  let ?E' = "E\<lparr>store_ReaderAt := s'\<rparr>"
  have res: "resolve ?E' pl p = resolve E pl p" for pl p
    by (rule resolve_env) simp_all
  have dr: "drain ?E' rc = drain E rc" for rc
    by (rule drain_env) simp
  have run: "run_consumer ?E' k rc = run_consumer E k rc"
    for k :: "(64 word \<times> error option) consumer" and rc
    by (rule run_consumer_env) simp
  have "apply_callback ?E' root rc = apply_callback E root rc" for root rc
    by (simp add: apply_callback_def run dr cong: prod.case_cong option.case_cong)
  then have cb: "apply_callback ?E' = apply_callback E" by (intro ext)
  have w: "WithTempMount ?E' mounts (apply_callback E) rc = WithTempMount E mounts (apply_callback E) rc"
    for rc
    by (simp add: WithTempMount_def cong: sum.case_cong)
  show ?thesis
  proof (cases "apply_opts opts desc config0")
    case (Inl e)
    with op show ?thesis by (simp add: Apply_def returning_def)
  next
    case cfg: (Inr config)
    show ?thesis
    proof (cases "store_ReaderAt E desc")
      case (Inl e)
      with cfg op st show ?thesis by (simp add: Apply_def returning_def)
    next
      case ra: (Inr ra)
      show ?thesis
      proof (cases "resolve E (ProcessorPayloads config) (NewProcessorChain E (MediaType desc) ra)")
        case None
        with cfg ra op st mt show ?thesis by (simp add: Apply_def res)
      next
        case (Some y)
        obtain rs evs1 where y: "y = (rs, evs1)" by (cases y)
        show ?thesis
        proof (cases rs)
          case (Inl e)
          with cfg ra Some y op st mt show ?thesis by (simp add: Apply_def returning_def res)
        next
          case p: (Inr p)
          show ?thesis
          proof (cases "WithTempMount E mounts (apply_callback E) \<lparr>r = \<lparr>tee_r = p, tee_w = []\<rparr>, c = 0\<rparr>")
            case None
            with cfg ra Some y p op st mt show ?thesis by (simp add: Apply_def res cb w)
          next
            case w': (Some z)
            obtain werr rc evs2 where z: "z = (werr, rc, evs2)" by (cases z)
            from cfg ra Some y p w' z op st mt show ?thesis
              by (cases werr) (simp_all add: Apply_def Let_def returning_def res cb w)
          qed
        qed
      qed
    qed
  qed
qed

text \<open>When the collaborators answer, \<open>Apply\<close> returns.\<close>

lemma Apply_total:
  assumes cfg: "apply_opts opts desc config0 = Inr cfg" and ra: "store_ReaderAt E desc = Inr ra"
    and rt: "resolves_to E (ProcessorPayloads cfg) n (NewProcessorChain E (MediaType desc) ra) p"
    and mnt: "mount_acquire E mounts = Inr root"
    and run: "run_consumer E (archive_Apply E root) \<lparr>r = \<lparr>tee_r = p, tee_w = []\<rparr>, c = 0\<rparr> =
                (x, rc1, evsx)"
    and ok: "snd x = None"
    and fre: "first_read_error E k (tee_r (r rc1)) = Some e"
  shows "\<exists>d tr. Apply E desc mounts opts =
           Some ((d, mount_release E root (if e = EOF then None else Some e)), tr) \<and>
           (mount_release E root (if e = EOF then None else Some e) \<noteq> None \<longrightarrow> d = emptyDesc)"
proof -
  let ?derr = "if e = EOF then None else Some e"
  from resolves_to_resolve [OF rt] obtain evs1 where
    res: "resolve E (ProcessorPayloads cfg) (NewProcessorChain E (MediaType desc) ra) =
            Some (Inr p, evs1)" ..
  from drain_first_read_error [OF fre] obtain rc2 evsd where
    dr: "drain E rc1 = Some (?derr, rc2, evsd)" by blast
  from mnt run ok dr
  have w: "WithTempMount E mounts (apply_callback E) \<lparr>r = \<lparr>tee_r = p, tee_w = []\<rparr>, c = 0\<rparr> =
      Some (mount_release E root ?derr, rc2,
            EvMount mounts # (EvExtract root # evsx @ evsd) @ [EvUnmount root])"
    by (simp add: WithTempMount_def apply_callback_def)
  show ?thesis
  proof (cases "mount_release E root ?derr")
    case None
    with cfg ra res w show ?thesis
      by (simp add: Apply_def Let_def returning_def del: append_Cons)
  next
    case (Some e')
    with cfg ra res w show ?thesis
      by (simp add: Apply_def Let_def returning_def del: append_Cons)
  qed
qed

subsection \<open>More runs of the small example\<close>

lemma demo_rev_run:
  "Apply demo_env demo_rev_desc [''overlay''] [] =
     Some ((\<lparr>MediaType = MediaTypeImageLayer, Digest = ''sha256:00111'', Size = 5\<rparr>, None),
       [EvReaderAt demo_rev_desc,
        EvGetProcessor (''layer+rev'', [1, 2, 3, 0, 0]) (Inr (MediaTypeImageLayer, [0, 0, 3, 2, 1])),
        EvMount [''overlay''], EvExtract ''/tmp/m'', EvProcRead 3 ([0, 0, 3], None),
        EvFsWrite ''/tmp/m/a'', EvProcRead 8192 ([2, 1], None), EvProcRead 8192 ([], Some EOF),
        EvUnmount ''/tmp/m'', EvProcClose (MediaTypeImageLayer, []) (Some (Err ''close failed'')),
        EvReaderClose [1, 2, 3, 0, 0], EvLog 5 ''sha256:D1'' 5 ''layer+rev''])"
  by (simp add: demo_simps demo_rev_desc_def)

lemma demo_truncated_sel:
  "store_ReaderAt demo_env_truncated = store_ReaderAt demo_env"
  "NewProcessorChain demo_env_truncated = NewProcessorChain demo_env"
  "GetProcessor demo_env_truncated = demo_registry"
  "proc_MediaType demo_env_truncated = fst"
  "proc_Read demo_env_truncated = truncated_Read"
  "mount_acquire demo_env_truncated mounts =
     (if mounts = [] then Inl (Err ''no mounts'') else Inr ''/tmp/m'')"
  "mount_release demo_env_truncated root (Some e) =
     Some (Wrap e (''mount callback failed on '' @ root))"
  "archive_Apply demo_env_truncated = demo_extract"
  by (simp_all add: demo_env_truncated_def demo_env_def)

lemma demo_truncated_extraction:
  "run_consumer demo_env_truncated (demo_extract ''/tmp/m'')
     \<lparr>r = \<lparr>tee_r = (MediaTypeImageLayer, [1, 2, 3, 0, 0]), tee_w = []\<rparr>, c = 0\<rparr> =
   ((3, None), \<lparr>r = \<lparr>tee_r = (MediaTypeImageLayer, [0, 0]), tee_w = [1, 2, 3]\<rparr>, c = 3\<rparr>,
    [EvProcRead 3 ([1, 2, 3], None), EvFsWrite ''/tmp/m/a''])"
  by (simp add: demo_extract_def readCounter_Read_def tee_Read_def demo_truncated_sel
      truncated_Read_def)

section \<open>The claims\<close>

subsection \<open>C1: the descriptor returned on success\<close>

text \<open>
  Claim C1. When \<open>Apply\<close> returns a nil error, the descriptor it returns is a new one:
  its media type is the label of the uncompressed layer, its size is the number of
  bytes the reads of the trace returned, which is the count of the canonical reader,
  and its digest is the canonical digest of those bytes in the order read. Those reads
  are reads of the decoded stream: the options and the store succeeded, the loop went
  from the chain on the store's reader to the first stage \<open>p\<close> that reports the
  canonical label, every read of the trace returned what \<open>p\<close> returns in the state the
  reads before it left, and the processor closed at the end is \<open>p\<close> in the state after
  the last read. The digest and the size of the descriptor given are not used for the
  result: a call with any other digest and size, on any store that hands out the
  same reader for it, and with options that do the same, returns the same pair.
\<close>

theorem Apply_returns_canonical_descriptor:
  assumes "Apply E desc mounts opts = Some ((d, None), tr)"
  shows "d = \<lparr>MediaType = MediaTypeImageLayer, Digest = canonical_digest E (read_bytes tr),
              Size = of_nat (length (read_bytes tr))\<rparr> \<and>
         (\<exists>cfg ra p n pf.
            apply_opts opts desc config0 = Inr cfg \<and> store_ReaderAt E desc = Inr ra \<and>
            resolves_to E (ProcessorPayloads cfg) n (NewProcessorChain E (MediaType desc) ra) p \<and>
            proc_MediaType E p = MediaTypeImageLayer \<and>
            replay E p tr = Some pf \<and> EvProcClose pf (proc_Close E pf) \<in> set tr) \<and>
         (\<forall>s' dg sz.
            s' (desc\<lparr>Digest := dg, Size := sz\<rparr>) = store_ReaderAt E desc \<and>
            apply_opts opts (desc\<lparr>Digest := dg, Size := sz\<rparr>) config0 =
              apply_opts opts desc config0 \<longrightarrow>
            map_option fst (Apply (E\<lparr>store_ReaderAt := s'\<rparr>) (desc\<lparr>Digest := dg, Size := sz\<rparr>)
                mounts opts) =
              Some (d, None))"
proof (intro conjI allI impI)
  show "d = \<lparr>MediaType = MediaTypeImageLayer, Digest = canonical_digest E (read_bytes tr),
              Size = of_nat (length (read_bytes tr))\<rparr>"
    using assms by (rule Apply_success_reads)
next
  show "\<exists>cfg ra p n pf.
            apply_opts opts desc config0 = Inr cfg \<and> store_ReaderAt E desc = Inr ra \<and>
            resolves_to E (ProcessorPayloads cfg) n (NewProcessorChain E (MediaType desc) ra) p \<and>
            proc_MediaType E p = MediaTypeImageLayer \<and>
            replay E p tr = Some pf \<and> EvProcClose pf (proc_Close E pf) \<in> set tr"
    using assms by (rule Apply_success_tied)
next
  fix s' dg sz
  assume h: "s' (desc\<lparr>Digest := dg, Size := sz\<rparr>) = store_ReaderAt E desc \<and>
          apply_opts opts (desc\<lparr>Digest := dg, Size := sz\<rparr>) config0 = apply_opts opts desc config0"
  then have "map_option fst (Apply (E\<lparr>store_ReaderAt := s'\<rparr>) (desc\<lparr>Digest := dg, Size := sz\<rparr>)
                mounts opts) =
             map_option fst (Apply E desc mounts opts)"
    by (intro Apply_store_irrelevant) simp_all
  with assms show "map_option fst (Apply (E\<lparr>store_ReaderAt := s'\<rparr>)
      (desc\<lparr>Digest := dg, Size := sz\<rparr>) mounts opts) = Some (d, None)"
    by simp
qed

theorem Apply_returns_canonical_descriptor_witness:
  "map_option fst (Apply demo_env demo_rev_desc [''overlay''] []) =
     Some (\<lparr>MediaType = MediaTypeImageLayer, Digest = ''sha256:00111'', Size = 5\<rparr>, None) \<and>
   read_bytes (snd (the (Apply demo_env demo_rev_desc [''overlay''] []))) = [0, 0, 3, 2, 1] \<and>
   resolves_to demo_env (ProcessorPayloads config0) 0
     (NewProcessorChain demo_env (MediaType demo_rev_desc) [1, 2, 3, 0, 0])
     (MediaTypeImageLayer, [0, 0, 3, 2, 1]) \<and>
   replay demo_env (MediaTypeImageLayer, [0, 0, 3, 2, 1])
     (snd (the (Apply demo_env demo_rev_desc [''overlay''] []))) = Some (MediaTypeImageLayer, []) \<and>
   map_option fst (Apply (demo_env\<lparr>store_ReaderAt := demo_store2\<rparr>)
       (demo_rev_desc\<lparr>Digest := ''sha256:D2'', Size := 99\<rparr>) [''overlay''] []) =
     Some (\<lparr>MediaType = MediaTypeImageLayer, Digest = ''sha256:00111'', Size = 5\<rparr>, None)"
proof -
  note t = Apply_returns_canonical_descriptor [OF demo_rev_run]
  have a: "map_option fst (Apply (demo_env\<lparr>store_ReaderAt := demo_store2\<rparr>)
       (demo_rev_desc\<lparr>Digest := ''sha256:D2'', Size := 99\<rparr>) [''overlay''] []) =
     Some (\<lparr>MediaType = MediaTypeImageLayer, Digest = ''sha256:00111'', Size = 5\<rparr>, None)"
    using t [THEN conjunct2, THEN conjunct2, rule_format,
        where s' = demo_store2 and dg = "''sha256:D2''" and sz = 99]
    by (simp add: demo_env_sel demo_rev_desc_def demo_store2_def)
  have b: "resolves_to demo_env (ProcessorPayloads config0) 0
     (NewProcessorChain demo_env (MediaType demo_rev_desc) [1, 2, 3, 0, 0])
     (MediaTypeImageLayer, [0, 0, 3, 2, 1])"
    by (simp add: demo_env_sel demo_rev_desc_def demo_registry_def MediaTypeImageLayer_def)
  have c: "replay demo_env (MediaTypeImageLayer, [0, 0, 3, 2, 1])
     (snd (the (Apply demo_env demo_rev_desc [''overlay''] []))) = Some (MediaTypeImageLayer, [])"
  proof -
    have pr: "proc_Read demo_env = bytes_Read" by (simp add: demo_env_def)
    show ?thesis by (simp add: demo_rev_run pr bytes_Read_def)
  qed
  from a b c demo_rev_run show ?thesis by simp
qed

subsection \<open>C2: the canonical reader\<close>

text \<open>
  Claim C2. A read of any length on the canonical reader is passed to the processor
  below with the same length; what it returns, bytes and error, is what the processor
  returned; the processor has advanced by that one read; the hash has received
  exactly the bytes returned; and the count has grown by their number.
\<close>

theorem readCounter_Read_transparent:
  "fst (readCounter_Read E rc n) = fst (proc_Read E (tee_r (r rc)) n) \<and>
   tee_r (r (snd (readCounter_Read E rc n))) = snd (proc_Read E (tee_r (r rc)) n) \<and>
   tee_w (r (snd (readCounter_Read E rc n))) =
     tee_w (r rc) @ fst (fst (proc_Read E (tee_r (r rc)) n)) \<and>
   c (snd (readCounter_Read E rc n)) =
     c rc + of_nat (length (fst (fst (proc_Read E (tee_r (r rc)) n))))"
  by (simp add: readCounter_Read_eq)

subsection \<open>C3: a registry that loops\<close>

text \<open>
  Claim C3, as amended. The resolution loop has no bound on its iterations and does
  not detect a label that repeats. It ends exactly when, after finitely many calls, a
  call of \<open>GetProcessor\<close> along the chain fails or returns a stage with the canonical
  label. On a registry whose chain from the descriptor's label never does, as when a
  label maps to a stage that reports the same label, the loop runs for ever and
  \<open>Apply\<close> does not return; it does not fail with an error.
\<close>

theorem resolve_ends_iff_chain_stops:
  "((\<exists>y. resolve E pl p = Some y) \<longleftrightarrow> (\<exists>n. chain_stops E pl n p)) \<and>
   (apply_opts opts desc config0 = Inr cfg \<and> store_ReaderAt E desc = Inr ra \<and>
    (\<forall>n. \<not> chain_stops E (ProcessorPayloads cfg) n (NewProcessorChain E (MediaType desc) ra)) \<longrightarrow>
      Apply E desc mounts opts = None)"
proof (intro conjI impI)
  show "(\<exists>y. resolve E pl p = Some y) \<longleftrightarrow> (\<exists>n. chain_stops E pl n p)"
    using resolve_stops [of E pl _ p] resolve_Some_stops [of E pl p] by blast
next
  assume h: "apply_opts opts desc config0 = Inr cfg \<and> store_ReaderAt E desc = Inr ra \<and>
    (\<forall>n. \<not> chain_stops E (ProcessorPayloads cfg) n (NewProcessorChain E (MediaType desc) ra))"
  then have "resolve E (ProcessorPayloads cfg) (NewProcessorChain E (MediaType desc) ra) = None"
    by (simp add: resolve_None_iff)
  with h show "Apply E desc mounts opts = None"
    by (intro Apply_unresolved [where cfg = cfg and ra = ra]) simp_all
qed

theorem resolve_ends_iff_chain_stops_witness:
  "chain_stops demo_env Map.empty 1 (''layer+gzip+enc'', [1, 2, 3, 0, 0]) \<and>
   resolve demo_env Map.empty (''layer+gzip+enc'', [1, 2, 3, 0, 0]) \<noteq> None \<and>
   Apply demo_env (demo_desc\<lparr>MediaType := ''loop''\<rparr>) [] [] = None"
proof -
  have stops: "chain_stops demo_env Map.empty 1 (''layer+gzip+enc'', [1, 2, 3, 0, 0])"
    by (simp add: demo_env_sel demo_registry_def MediaTypeImageLayer_def)
  note t = resolve_ends_iff_chain_stops
  from t [where E = demo_env and pl = Map.empty and p = "(''layer+gzip+enc'', [1, 2, 3, 0, 0])"]
    stops
  have "resolve demo_env Map.empty (''layer+gzip+enc'', [1, 2, 3, 0, 0]) \<noteq> None" by blast
  moreover
  have "apply_opts [] (demo_desc\<lparr>MediaType := ''loop''\<rparr>) config0 = Inr config0" by simp
  moreover
  have "store_ReaderAt demo_env (demo_desc\<lparr>MediaType := ''loop''\<rparr>) = Inr [1, 2, 3, 0, 0]"
    by (simp add: demo_env_sel demo_desc_def)
  moreover
  have "\<forall>n. \<not> chain_stops demo_env (ProcessorPayloads config0) n
          (NewProcessorChain demo_env (MediaType (demo_desc\<lparr>MediaType := ''loop''\<rparr>)) [1, 2, 3, 0, 0])"
    by (simp add: demo_env_sel demo_loop_never_stops)
  ultimately show ?thesis
    using stops t [where opts = "[]" and desc = "demo_desc\<lparr>MediaType := ''loop''\<rparr>"
        and cfg = config0 and E = demo_env and ra = "[1, 2, 3, 0, 0]" and mounts = "[]"]
    by blast
qed

theorem resolve_loop_counterexample:
  "GetProcessor demo_env (''loop'', [1, 2, 3, 0, 0]) Map.empty = Inr (''loop'', [1, 2, 3, 0, 0]) \<and>
   Apply demo_env (demo_desc\<lparr>MediaType := ''loop''\<rparr>) [''overlay''] [] = None"
proof -
  have "resolve demo_env (ProcessorPayloads config0)
          (NewProcessorChain demo_env (MediaType (demo_desc\<lparr>MediaType := ''loop''\<rparr>)) [1, 2, 3, 0, 0]) = None"
    by (simp add: demo_env_sel demo_loop_unresolved)
  then have "Apply demo_env (demo_desc\<lparr>MediaType := ''loop''\<rparr>) [''overlay''] [] = None"
    by (intro Apply_unresolved [where cfg = config0 and ra = "[1, 2, 3, 0, 0]"])
       (simp_all add: demo_env_sel demo_desc_def)
  then show ?thesis
    by (simp add: demo_env_sel demo_registry_def MediaTypeImageLayer_def)
qed

subsection \<open>C4: closing the stages\<close>

text \<open>
  Claim C4, as amended. On every exit path after the chain has been resolved (success,
  a mount that fails, an extraction or a drain that fails) \<open>Apply\<close> closes one stage,
  the processor the loop ended with, in the state the reads left it in, and then the
  reader of the content store; it closes nothing else. What that \<open>Close\<close> returns is
  dropped: with any other result of \<open>Close\<close> the call returns the same descriptor and
  the same error, so a failure to close never masks the error of the call. When a call
  of \<open>GetProcessor\<close> fails, \<open>Apply\<close> closes the reader of the content store only. The
  stages acquired before the last are not closed by \<open>Apply\<close> on any path.
\<close>

theorem Apply_closes_the_resolved_stage:
  assumes "Apply E desc mounts opts = Some ((d, err), tr)"
  shows "(\<forall>cfg ra q evs1.
            apply_opts opts desc config0 = Inr cfg \<and> store_ReaderAt E desc = Inr ra \<and>
            resolve E (ProcessorPayloads cfg) (NewProcessorChain E (MediaType desc) ra) =
              Some (Inr q, evs1) \<longrightarrow>
            (\<exists>werr rc evs2.
               WithTempMount E mounts (apply_callback E) \<lparr>r = \<lparr>tee_r = q, tee_w = []\<rparr>, c = 0\<rparr> =
                 Some (werr, rc, evs2) \<and>
               filter is_close tr =
                 [EvProcClose (tee_r (r rc)) (proc_Close E (tee_r (r rc))), EvReaderClose ra])) \<and>
         (\<forall>cfg ra e evs1.
            apply_opts opts desc config0 = Inr cfg \<and> store_ReaderAt E desc = Inr ra \<and>
            resolve E (ProcessorPayloads cfg) (NewProcessorChain E (MediaType desc) ra) =
              Some (Inl e, evs1) \<longrightarrow>
            filter is_close tr = [EvReaderClose ra]) \<and>
         (\<forall>f. map_option fst (Apply (E\<lparr>proc_Close := f\<rparr>) desc mounts opts) = Some (d, err))"
proof (intro conjI allI impI)
  fix cfg ra q evs1
  assume h: "apply_opts opts desc config0 = Inr cfg \<and> store_ReaderAt E desc = Inr ra \<and>
    resolve E (ProcessorPayloads cfg) (NewProcessorChain E (MediaType desc) ra) = Some (Inr q, evs1)"
  from Apply_cases [OF assms] h
  obtain werr rc evs2 where
    w: "WithTempMount E mounts (apply_callback E) \<lparr>r = \<lparr>tee_r = q, tee_w = []\<rparr>, c = 0\<rparr> =
          Some (werr, rc, evs2)"
    and tr: "tr = EvReaderAt desc # evs1 @ evs2 @
               [EvProcClose (tee_r (r rc)) (proc_Close E (tee_r (r rc))), EvReaderClose ra] \<or>
             tr = EvReaderAt desc # evs1 @ evs2 @
               [EvProcClose (tee_r (r rc)) (proc_Close E (tee_r (r rc))), EvReaderClose ra,
                EvLog (time_Since E (time_Now E)) (Digest desc) (Size desc) (MediaType desc)]"
    by auto
  from h have "filter is_close evs1 = []" by (auto dest: resolve_events(4))
  moreover from WithTempMount_acc [OF w] have "filter is_close evs2 = []" by simp
  ultimately have "filter is_close tr =
      [EvProcClose (tee_r (r rc)) (proc_Close E (tee_r (r rc))), EvReaderClose ra]"
    using tr by auto
  with w show "\<exists>werr rc evs2.
       WithTempMount E mounts (apply_callback E) \<lparr>r = \<lparr>tee_r = q, tee_w = []\<rparr>, c = 0\<rparr> =
         Some (werr, rc, evs2) \<and>
       filter is_close tr =
         [EvProcClose (tee_r (r rc)) (proc_Close E (tee_r (r rc))), EvReaderClose ra]"
    by blast
next
  fix cfg ra e evs1
  assume h: "apply_opts opts desc config0 = Inr cfg \<and> store_ReaderAt E desc = Inr ra \<and>
    resolve E (ProcessorPayloads cfg) (NewProcessorChain E (MediaType desc) ra) = Some (Inl e, evs1)"
  from Apply_cases [OF assms] h
  have tr: "tr = EvReaderAt desc # evs1 @ [EvReaderClose ra]" by auto
  from h have "filter is_close evs1 = []" by (auto dest: resolve_events(4))
  with tr show "filter is_close tr = [EvReaderClose ra]" by simp
next
  fix f
  from assms Apply_proc_Close_irrelevant [where E = E and f = f and desc = desc and mounts = mounts and opts = opts]
  show "map_option fst (Apply (E\<lparr>proc_Close := f\<rparr>) desc mounts opts) = Some (d, err)"
    by simp
qed

theorem Apply_closes_the_resolved_stage_witness:
  "filter is_close (snd (the (Apply demo_env (demo_desc\<lparr>MediaType := ''blob+enc''\<rparr>) [''overlay''] []))) =
     [EvReaderClose [1, 2, 3, 0, 0]] \<and>
   map_option fst (Apply (demo_env\<lparr>proc_Close := \<lambda>p. None\<rparr>) demo_desc [''overlay''] []) =
     Some (\<lparr>MediaType = MediaTypeImageLayer, Digest = ''sha256:11100'', Size = 5\<rparr>, None) \<and>
   map_option fst (Apply demo_env demo_desc [''overlay''] []) =
     Some (\<lparr>MediaType = MediaTypeImageLayer, Digest = ''sha256:11100'', Size = 5\<rparr>, None)"
proof -
  let ?desc = "demo_desc\<lparr>MediaType := ''blob+enc''\<rparr>"
  have cfg: "apply_opts [] ?desc config0 = Inr config0" by simp
  have st: "store_ReaderAt demo_env ?desc = Inr [1, 2, 3, 0, 0]"
    by (simp add: demo_env_sel demo_desc_def)
  have rs: "resolve demo_env (ProcessorPayloads config0)
              (NewProcessorChain demo_env (MediaType ?desc) [1, 2, 3, 0, 0]) =
            Some (Inl (Err ''no processor for media-type''),
              [EvGetProcessor (''blob+enc'', [1, 2, 3, 0, 0]) (Inr (''blob'', [1, 2, 3, 0, 0])),
               EvGetProcessor (''blob'', [1, 2, 3, 0, 0]) (Inl (Err ''no processor for media-type''))])"
    by (simp add: demo_env_sel resolve.simps demo_registry_def MediaTypeImageLayer_def)
  from Apply_closes_the_resolved_stage [OF demo_run_partway] cfg st rs
  have "filter is_close (snd (the (Apply demo_env ?desc [''overlay''] []))) =
          [EvReaderClose [1, 2, 3, 0, 0]]"
    by (simp only: demo_run_partway option.sel snd_conv)
  moreover from Apply_closes_the_resolved_stage [OF demo_run]
  have "map_option fst (Apply (demo_env\<lparr>proc_Close := \<lambda>p. None\<rparr>) demo_desc [''overlay''] []) =
     Some (\<lparr>MediaType = MediaTypeImageLayer, Digest = ''sha256:11100'', Size = 5\<rparr>, None)"
    by blast
  ultimately show ?thesis using demo_run by simp
qed

theorem Apply_closes_the_resolved_stage_counterexample:
  "Apply demo_env (demo_desc\<lparr>MediaType := ''blob+enc''\<rparr>) [''overlay''] [] =
     Some ((emptyDesc,
            Some (Wrap (Err ''no processor for media-type'')
                    ''failed to get stream processor for blob+enc'')),
       [EvReaderAt (demo_desc\<lparr>MediaType := ''blob+enc''\<rparr>),
        EvGetProcessor (''blob+enc'', [1, 2, 3, 0, 0]) (Inr (''blob'', [1, 2, 3, 0, 0])),
        EvGetProcessor (''blob'', [1, 2, 3, 0, 0]) (Inl (Err ''no processor for media-type'')),
        EvReaderClose [1, 2, 3, 0, 0]]) \<and>
   filter is_close (snd (the (Apply demo_env (demo_desc\<lparr>MediaType := ''layer+gzip+enc''\<rparr>)
       [''overlay''] []))) =
     [EvProcClose (MediaTypeImageLayer, []) (Some (Err ''close failed'')),
      EvReaderClose [1, 2, 3, 0, 0]]"
  by (simp add: demo_run_partway demo_run_two_stages)

subsection \<open>C5: a failing option\<close>

text \<open>
  Claim C5, as amended. The options are applied in the order given, each to the
  configuration its predecessors left: when all succeed, the loop ends with the
  configuration they built in that order. When an option returns an error, \<open>Apply\<close>
  returns at once, whatever options follow: the empty descriptor and that error
  wrapped with the message \<open>failed to apply config opt\<close> (the claim has
  \<open>invalid apply configuration\<close>), with no call made before: not on the content
  store, and on no other collaborator.
\<close>

theorem Apply_option_error:
  "((\<forall>i<length opts. snd ((opts ! i) desc (opts_in_order (take i opts) desc config0)) = None) \<longrightarrow>
      apply_opts opts desc config0 = Inr (opts_in_order opts desc config0)) \<and>
   ((\<forall>i<length pre. snd ((pre ! i) desc (opts_in_order (take i pre) desc config0)) = None) \<and>
    snd (opt desc (opts_in_order pre desc config0)) = Some e \<longrightarrow>
      Apply E desc mounts (pre @ opt # post) =
        Some ((emptyDesc, Some (Wrap e ''failed to apply config opt'')), []))"
proof (intro conjI impI)
  assume "\<forall>i<length opts. snd ((opts ! i) desc (opts_in_order (take i opts) desc config0)) = None"
  then show "apply_opts opts desc config0 = Inr (opts_in_order opts desc config0)"
    by (rule apply_opts_all_succeed)
next
  assume h: "(\<forall>i<length pre. snd ((pre ! i) desc (opts_in_order (take i pre) desc config0)) = None) \<and>
    snd (opt desc (opts_in_order pre desc config0)) = Some e"
  then have "apply_opts pre desc config0 = Inr (opts_in_order pre desc config0)"
    by (intro apply_opts_all_succeed) simp
  with h have "apply_opts (pre @ opt # post) desc config0 = Inl e"
    by (cases "opt desc (opts_in_order pre desc config0)") (simp add: apply_opts_append)
  then show "Apply E desc mounts (pre @ opt # post) =
        Some ((emptyDesc, Some (Wrap e ''failed to apply config opt'')), [])"
    by (simp add: Apply_def returning_def deferred_log_def)
qed

theorem Apply_option_error_witness:
  "apply_opts [demo_set_payload] demo_desc config0 =
     Inr \<lparr>ProcessorPayloads = [''layer+gzip'' \<mapsto> ''level=9'']\<rparr> \<and>
   Apply demo_env demo_desc [''overlay''] ([demo_set_payload] @ demo_bad_opt # [demo_set_payload]) =
     Some ((emptyDesc, Some (Wrap (Err ''bad payload'') ''failed to apply config opt'')), [])"
proof -
  have ok: "\<forall>i<length [demo_set_payload].
     snd (([demo_set_payload] ! i) demo_desc (opts_in_order (take i [demo_set_payload]) demo_desc config0)) = None"
    by (simp add: demo_set_payload_def)
  have bad: "snd (demo_bad_opt demo_desc (opts_in_order [demo_set_payload] demo_desc config0)) =
     Some (Err ''bad payload'')"
    by (simp add: demo_bad_opt_def)
  note t = Apply_option_error [of "[demo_set_payload]" demo_desc "[demo_set_payload]" demo_bad_opt
      "Err ''bad payload''" demo_env "[''overlay'']" "[demo_set_payload]"]
  from t ok have "apply_opts [demo_set_payload] demo_desc config0 =
      Inr (opts_in_order [demo_set_payload] demo_desc config0)" by blast
  moreover from t ok bad
  have "Apply demo_env demo_desc [''overlay''] ([demo_set_payload] @ demo_bad_opt # [demo_set_payload]) =
     Some ((emptyDesc, Some (Wrap (Err ''bad payload'') ''failed to apply config opt'')), [])"
    by blast
  ultimately show ?thesis
    by (simp add: opts_in_order_def demo_set_payload_def config0_def)
qed

theorem Apply_option_error_counterexample:
  "Apply demo_env demo_desc [''overlay''] [demo_bad_opt] =
     Some ((emptyDesc, Some (Wrap (Err ''bad payload'') ''failed to apply config opt'')), []) \<and>
   Apply demo_env demo_desc [''overlay''] [demo_bad_opt] \<noteq>
     Some ((emptyDesc, Some (Wrap (Err ''bad payload'') ''invalid apply configuration'')), [])"
  by (simp add: demo_simps)

subsection \<open>C6: the trailing data\<close>

text \<open>
  Claim C6. First, of a call that returns. When \<open>Apply\<close> succeeds, the size it returns
  is the number of all bytes the reads of the resolved stage returned, those of the
  extraction and those of the drain after it, and the digest is taken over all of
  them; as an \<open>int64\<close> the size is that number as long as it is below \<open>2 ^ 63\<close>.
  Where \<open>mount.WithTempMount\<close> reports a failure of its callback, the last read of a
  successful call returned \<open>io.EOF\<close>, so the stream was read to its end, and a call
  whose last read returned anything else returns an error.

  Second, that the call returns. When the options and the store succeed, the chain
  resolves, the mount is acquired, the extraction succeeds, and one of the reads of the
  remainder returns an error \<open>e\<close>, \<open>Apply\<close> returns, with what \<open>mount.WithTempMount\<close>
  makes of the result of the drain: nil for \<open>io.EOF\<close>, and \<open>e\<close> otherwise. So a read of
  the remainder that fails makes \<open>Apply\<close> return the empty descriptor and an error,
  where \<open>mount.WithTempMount\<close> reports the failure of its callback.
\<close>

theorem Apply_counts_the_whole_stream:
  "(Apply E desc mounts opts = Some ((d, err), tr) \<longrightarrow>
      (err = None \<longrightarrow>
         Size d = of_nat (length (read_bytes tr)) \<and>
         Digest d = canonical_digest E (read_bytes tr) \<and>
         (length (read_bytes tr) < 2 ^ 63 \<longrightarrow> sint (Size d) = int (length (read_bytes tr))) \<and>
         (\<exists>cfg ra p n pf.
            apply_opts opts desc config0 = Inr cfg \<and> store_ReaderAt E desc = Inr ra \<and>
            resolves_to E (ProcessorPayloads cfg) n (NewProcessorChain E (MediaType desc) ra) p \<and>
            replay E p tr = Some pf)) \<and>
      ((\<forall>root e. mount_release E root (Some e) \<noteq> None) \<longrightarrow>
         (err = None \<longrightarrow>
            filter is_read tr \<noteq> [] \<and> read_err (last (filter is_read tr)) = Some EOF) \<and>
         (filter is_read tr \<noteq> [] \<and> read_err (last (filter is_read tr)) \<noteq> Some EOF \<longrightarrow>
            err \<noteq> None))) \<and>
   (apply_opts opts desc config0 = Inr cfg \<and> store_ReaderAt E desc = Inr ra \<and>
    resolves_to E (ProcessorPayloads cfg) n (NewProcessorChain E (MediaType desc) ra) p \<and>
    mount_acquire E mounts = Inr root \<and>
    run_consumer E (archive_Apply E root) \<lparr>r = \<lparr>tee_r = p, tee_w = []\<rparr>, c = 0\<rparr> =
      (x, rc1, evsx) \<and>
    snd x = None \<and>
    first_read_error E k (tee_r (r rc1)) = Some e \<longrightarrow>
      (\<exists>d' tr'. Apply E desc mounts opts =
         Some ((d', mount_release E root (if e = EOF then None else Some e)), tr')) \<and>
      (e \<noteq> EOF \<and> mount_release E root (Some e) \<noteq> None \<longrightarrow>
         (\<exists>e' tr'. Apply E desc mounts opts = Some ((emptyDesc, Some e'), tr') \<and>
            mount_release E root (Some e) = Some e')))"
proof (intro conjI impI)
  assume ap: "Apply E desc mounts opts = Some ((d, err), tr)" and ok: "err = None"
  then have s: "Apply E desc mounts opts = Some ((d, None), tr)" by simp
  from Apply_success_reads [OF s]
  show "Size d = of_nat (length (read_bytes tr))"
    and "Digest d = canonical_digest E (read_bytes tr)"
    by simp_all
  from Apply_success_tied [OF s]
  show "\<exists>cfg ra p n pf.
            apply_opts opts desc config0 = Inr cfg \<and> store_ReaderAt E desc = Inr ra \<and>
            resolves_to E (ProcessorPayloads cfg) n (NewProcessorChain E (MediaType desc) ra) p \<and>
            replay E p tr = Some pf"
    by blast
  assume "length (read_bytes tr) < 2 ^ 63"
  with Apply_success_reads [OF s] show "sint (Size d) = int (length (read_bytes tr))"
    by (simp add: sint_of_nat_small)
next
  assume ap: "Apply E desc mounts opts = Some ((d, err), tr)"
    and rel: "\<forall>root e. mount_release E root (Some e) \<noteq> None" and ok: "err = None"
  then have s: "Apply E desc mounts opts = Some ((d, None), tr)" by simp
  from Apply_success_last_read [OF s] rel
  show "filter is_read tr \<noteq> []" and "read_err (last (filter is_read tr)) = Some EOF"
    by blast+
next
  assume ap: "Apply E desc mounts opts = Some ((d, err), tr)"
    and rel: "\<forall>root e. mount_release E root (Some e) \<noteq> None"
    and nl: "filter is_read tr \<noteq> [] \<and> read_err (last (filter is_read tr)) \<noteq> Some EOF"
  show "err \<noteq> None"
  proof
    assume "err = None"
    with ap have s: "Apply E desc mounts opts = Some ((d, None), tr)" by simp
    from Apply_success_last_read [OF s] rel nl show False by blast
  qed
next
  assume h: "apply_opts opts desc config0 = Inr cfg \<and> store_ReaderAt E desc = Inr ra \<and>
    resolves_to E (ProcessorPayloads cfg) n (NewProcessorChain E (MediaType desc) ra) p \<and>
    mount_acquire E mounts = Inr root \<and>
    run_consumer E (archive_Apply E root) \<lparr>r = \<lparr>tee_r = p, tee_w = []\<rparr>, c = 0\<rparr> =
      (x, rc1, evsx) \<and>
    snd x = None \<and>
    first_read_error E k (tee_r (r rc1)) = Some e"
  then have ret: "\<exists>d tr. Apply E desc mounts opts =
           Some ((d, mount_release E root (if e = EOF then None else Some e)), tr) \<and>
           (mount_release E root (if e = EOF then None else Some e) \<noteq> None \<longrightarrow> d = emptyDesc)"
    using Apply_total [of opts desc cfg E ra n p mounts root x rc1 evsx k e] by blast
  then show "\<exists>d' tr'. Apply E desc mounts opts =
         Some ((d', mount_release E root (if e = EOF then None else Some e)), tr')"
    by blast
  assume "e \<noteq> EOF \<and> mount_release E root (Some e) \<noteq> None"
  with ret show "\<exists>e' tr'. Apply E desc mounts opts = Some ((emptyDesc, Some e'), tr') \<and>
            mount_release E root (Some e) = Some e'"
    by auto
qed

theorem Apply_counts_the_whole_stream_witness:
  "map_option fst (Apply demo_env demo_rev_desc [''overlay''] []) =
     Some (\<lparr>MediaType = MediaTypeImageLayer, Digest = ''sha256:00111'', Size = 5\<rparr>, None) \<and>
   read_bytes (snd (the (Apply demo_env demo_rev_desc [''overlay''] []))) = [0, 0, 3, 2, 1] \<and>
   sint (5 :: 64 word) = int (length [0, 0, 3, 2, 1 :: byte]) \<and>
   read_err (last (filter is_read (snd (the (Apply demo_env demo_rev_desc [''overlay''] []))))) =
     Some EOF \<and>
   first_read_error demo_env_truncated 0 (MediaTypeImageLayer, [0, 0]) =
     Some (Err ''unexpected EOF'') \<and>
   map_option fst (Apply demo_env_truncated demo_desc [''overlay''] []) =
     Some (emptyDesc, Some (Wrap (Err ''unexpected EOF'') ''mount callback failed on /tmp/m''))"
proof -
  have rel: "\<forall>root e. mount_release demo_env root (Some e) \<noteq> None"
    by (simp add: demo_env_def)
  note t1 = Apply_counts_the_whole_stream [where E = demo_env and desc = demo_rev_desc
      and mounts = "[''overlay'']" and opts = "[]", THEN conjunct1, rule_format, OF demo_rev_run]
  from t1 rel
  have a: "sint (5 :: 64 word) =
      int (length (read_bytes (snd (the (Apply demo_env demo_rev_desc [''overlay''] [])))))"
    and b: "read_err (last (filter is_read (snd (the (Apply demo_env demo_rev_desc [''overlay''] []))))) =
      Some EOF"
    by (simp_all add: demo_rev_run)
  have fre: "first_read_error demo_env_truncated 0 (MediaTypeImageLayer, [0, 0]) =
      Some (Err ''unexpected EOF'')"
    by (simp add: demo_truncated_sel truncated_Read_def)
  have hyps: "apply_opts [] demo_desc config0 = Inr config0 \<and>
      store_ReaderAt demo_env_truncated demo_desc = Inr [1, 2, 3, 0, 0] \<and>
      resolves_to demo_env_truncated (ProcessorPayloads config0) 0
        (NewProcessorChain demo_env_truncated (MediaType demo_desc) [1, 2, 3, 0, 0])
        (MediaTypeImageLayer, [1, 2, 3, 0, 0]) \<and>
      mount_acquire demo_env_truncated [''overlay''] = Inr ''/tmp/m'' \<and>
      run_consumer demo_env_truncated (archive_Apply demo_env_truncated ''/tmp/m'')
        \<lparr>r = \<lparr>tee_r = (MediaTypeImageLayer, [1, 2, 3, 0, 0]), tee_w = []\<rparr>, c = 0\<rparr> =
        ((3, None), \<lparr>r = \<lparr>tee_r = (MediaTypeImageLayer, [0, 0]), tee_w = [1, 2, 3]\<rparr>, c = 3\<rparr>,
         [EvProcRead 3 ([1, 2, 3], None), EvFsWrite ''/tmp/m/a'']) \<and>
      snd (3 :: 64 word, None :: error option) = None \<and>
      first_read_error demo_env_truncated 0
        (tee_r (r \<lparr>r = \<lparr>tee_r = (MediaTypeImageLayer, [0, 0]), tee_w = [1, 2, 3 :: byte]\<rparr>,
                    c = 3 :: 64 word\<rparr>)) = Some (Err ''unexpected EOF'')"
  proof (intro conjI)
    show "resolves_to demo_env_truncated (ProcessorPayloads config0) 0
        (NewProcessorChain demo_env_truncated (MediaType demo_desc) [1, 2, 3, 0, 0])
        (MediaTypeImageLayer, [1, 2, 3, 0, 0])"
      by (simp add: demo_truncated_sel demo_env_sel demo_desc_def demo_registry_def
          MediaTypeImageLayer_def)
    show "run_consumer demo_env_truncated (archive_Apply demo_env_truncated ''/tmp/m'')
        \<lparr>r = \<lparr>tee_r = (MediaTypeImageLayer, [1, 2, 3, 0, 0]), tee_w = []\<rparr>, c = 0\<rparr> =
        ((3, None), \<lparr>r = \<lparr>tee_r = (MediaTypeImageLayer, [0, 0]), tee_w = [1, 2, 3]\<rparr>, c = 3\<rparr>,
         [EvProcRead 3 ([1, 2, 3], None), EvFsWrite ''/tmp/m/a''])"
      by (simp only: demo_truncated_sel demo_truncated_extraction)
    show "first_read_error demo_env_truncated 0
        (tee_r (r \<lparr>r = \<lparr>tee_r = (MediaTypeImageLayer, [0, 0]), tee_w = [1, 2, 3 :: byte]\<rparr>,
                    c = 3 :: 64 word\<rparr>)) = Some (Err ''unexpected EOF'')"
      using fre by simp
  qed (simp_all add: demo_truncated_sel demo_env_sel demo_desc_def)
  from Apply_counts_the_whole_stream [THEN conjunct2, rule_format, OF hyps, THEN conjunct2]
  have "\<exists>e' tr'. Apply demo_env_truncated demo_desc [''overlay''] [] =
          Some ((emptyDesc, Some e'), tr') \<and>
          mount_release demo_env_truncated ''/tmp/m'' (Some (Err ''unexpected EOF'')) = Some e'"
    by (simp add: demo_truncated_sel)
  then have c: "map_option fst (Apply demo_env_truncated demo_desc [''overlay''] []) =
     Some (emptyDesc, Some (Wrap (Err ''unexpected EOF'') ''mount callback failed on /tmp/m''))"
    by (auto simp: demo_truncated_sel)
  from a b c fre demo_rev_run show ?thesis by simp
qed

subsection \<open>C7: a media type without a decoder\<close>

text \<open>
  Claim C7. When the registry has no decoder for the media type of the descriptor
  (\<open>GetProcessor\<close> on the fresh chain fails with the registry's error \<open>e0\<close>),
  \<open>Apply\<close> returns an error and makes no call that touches the file system: no mount,
  no extraction, no write, no unmount. Once the options and the store have succeeded,
  the error is \<open>e0\<close> wrapped with \<open>failed to get stream processor for\<close> and the media
  type, and the calls were the store's, the one \<open>GetProcessor\<close> and the closing of
  the store's reader.
\<close>

theorem Apply_unregistered_media_type:
  assumes nodec: "\<forall>ra pl. GetProcessor E (NewProcessorChain E (MediaType desc) ra) pl = Inl e0"
  shows "\<exists>err tr. Apply E desc mounts opts = Some ((emptyDesc, Some err), tr) \<and>
           filter is_fs tr = [] \<and>
           (\<forall>cfg ra. apply_opts opts desc config0 = Inr cfg \<and> store_ReaderAt E desc = Inr ra \<longrightarrow>
              err = Wrap e0 (''failed to get stream processor for '' @ MediaType desc) \<and>
              tr = [EvReaderAt desc,
                    EvGetProcessor (NewProcessorChain E (MediaType desc) ra) (Inl e0),
                    EvReaderClose ra])"
proof (cases "apply_opts opts desc config0")
  case (Inl e)
  then show ?thesis by (simp add: Apply_def returning_def deferred_log_def)
next
  case cfg: (Inr cfg)
  show ?thesis
  proof (cases "store_ReaderAt E desc")
    case (Inl e)
    with cfg show ?thesis by (simp add: Apply_def returning_def deferred_log_def)
  next
    case (Inr ra)
    from nodec have "resolve E (ProcessorPayloads cfg) (NewProcessorChain E (MediaType desc) ra) =
      Some (Inl e0, [EvGetProcessor (NewProcessorChain E (MediaType desc) ra) (Inl e0)])"
      by (subst resolve.simps) simp
    with cfg Inr show ?thesis by (simp add: Apply_def returning_def deferred_log_def)
  qed
qed

theorem Apply_unregistered_media_type_witness:
  "Apply demo_env (demo_desc\<lparr>MediaType := ''blob''\<rparr>) [''overlay''] [] =
     Some ((emptyDesc, Some (Wrap (Err ''no processor for media-type'')
                               ''failed to get stream processor for blob'')),
           [EvReaderAt (demo_desc\<lparr>MediaType := ''blob''\<rparr>),
            EvGetProcessor (''blob'', [1, 2, 3, 0, 0]) (Inl (Err ''no processor for media-type'')),
            EvReaderClose [1, 2, 3, 0, 0]])"
proof -
  have nodec: "\<forall>ra pl. GetProcessor demo_env
      (NewProcessorChain demo_env (MediaType (demo_desc\<lparr>MediaType := ''blob''\<rparr>)) ra) pl =
      Inl (Err ''no processor for media-type'')"
    by (simp add: demo_env_def demo_registry_def MediaTypeImageLayer_def)
  have cfg: "apply_opts [] (demo_desc\<lparr>MediaType := ''blob''\<rparr>) config0 = Inr config0" by simp
  have st: "store_ReaderAt demo_env (demo_desc\<lparr>MediaType := ''blob''\<rparr>) = Inr [1, 2, 3, 0, 0]"
    by (simp add: demo_env_def demo_desc_def)
  from Apply_unregistered_media_type [OF nodec, of "[''overlay'']" "[]"] cfg st
  show ?thesis by (auto simp: demo_env_def)
qed

subsection \<open>C8: the log entry\<close>

text \<open>
  Claim C8. Among the calls of a returning \<open>Apply\<close> there is a log entry exactly when
  the error returned is nil, and then there is one: the time since entry and the
  digest, size and media type of the descriptor given.
\<close>

theorem Apply_logs_exactly_on_success:
  assumes "Apply E desc mounts opts = Some ((d, err), tr)"
  shows "filter is_log tr =
           (if err = None
            then [EvLog (time_Since E (time_Now E)) (Digest desc) (Size desc) (MediaType desc)]
            else [])"
  using Apply_cases [OF assms]
  by (auto dest: resolve_events(2) WithTempMount_acc)

theorem Apply_logs_exactly_on_success_witness:
  "filter is_log (snd (the (Apply demo_env demo_desc [''overlay''] []))) =
     [EvLog 5 ''sha256:D1'' 5 ''layer+gzip''] \<and>
   snd (fst (the (Apply demo_env demo_desc [''overlay''] []))) = None \<and>
   filter is_log (snd (the (Apply demo_env demo_desc [] []))) = [] \<and>
   snd (fst (the (Apply demo_env demo_desc [] []))) = Some (Err ''no mounts'')"
  using Apply_logs_exactly_on_success [OF demo_run] Apply_logs_exactly_on_success [OF demo_run_no_mount]
    demo_run demo_run_no_mount
  by (simp add: demo_env_def demo_desc_def)

subsection \<open>C9: the descriptor returned with an error\<close>

text \<open>
  Claim C9. Whenever \<open>Apply\<close> returns an error, on any of its paths, the descriptor it
  returns is \<open>emptyDesc\<close>: empty media type, empty digest, size zero.
\<close>

theorem Apply_error_returns_emptyDesc:
  assumes "Apply E desc mounts opts = Some ((d, Some e), tr)"
  shows "d = emptyDesc \<and> MediaType d = [] \<and> Size d = 0 \<and> Digest d = []"
  using Apply_cases [OF assms] by (auto simp: emptyDesc_def)

theorem Apply_error_returns_emptyDesc_witness:
  "map_option fst (Apply demo_env demo_desc [] []) = Some (emptyDesc, Some (Err ''no mounts'')) \<and>
   emptyDesc = \<lparr>MediaType = [], Digest = [], Size = 0\<rparr>"
  using Apply_error_returns_emptyDesc [OF demo_run_no_mount] demo_run_no_mount
  by (simp add: emptyDesc_def)

subsection \<open>C10: the status check of the token fetchers\<close>

text \<open>
  Claim C10. \<open>FetchToken\<close> and \<open>FetchTokenWithOAuth\<close> go on, with the response the
  round trip returned, to the status check (the body of a response of net/http is
  never nil). A status code from 200 up to but not including 400, so every 3xx code
  too, is accepted: the body is decoded as a token response, and the call returns
  the token, a decoding error or \<open>ErrNoToken\<close>. For every status code below 200 or
  from 400 on, both return the empty string and an \<open>ErrUnexpectedStatus\<close> (under
  \<open>errors.WithStack\<close>) with the status, the status code and the first 64000 bytes of
  the body, no more.
\<close>

theorem fetch_status_check:
  assumes "Body resp = Some body"
  shows
   "(http_NewRequest H ''GET'' (Realm to) None = Inr req \<and>
     ctxhttp_Do H (token_request H headers to req) = Inr resp \<longrightarrow>
       FetchToken H headers to = token_response H resp) \<and>
    (http_NewRequest H ''POST'' (Realm to) (Some (url_Encode H (oauth_form clientID to))) = Inr req' \<and>
     ctxhttp_Do H (oauth_request headers req') = Inr resp \<longrightarrow>
       FetchTokenWithOAuth H headers clientID to = oauth_response H resp) \<and>
    (StatusCode resp < 200 \<or> 400 \<le> StatusCode resp \<longrightarrow>
       token_response H resp =
         Returned [] (Some (WithStack
           (ErrUnexpectedStatus (Status resp) (StatusCode resp) (take 64000 body)))) \<and>
       oauth_response H resp =
         Returned [] (Some (WithStack
           (ErrUnexpectedStatus (Status resp) (StatusCode resp) (take 64000 body)))) \<and>
       length (take 64000 body) \<le> 64000) \<and>
    (200 \<le> StatusCode resp \<and> StatusCode resp < 400 \<longrightarrow>
       (\<forall>msg. json_Decode_get H body = Inl msg \<longrightarrow>
          token_response H resp =
            Returned [] (Some (Errorf (''unable to decode token response: '' @ msg)))) \<and>
       (\<forall>tr. json_Decode_get H body = Inr tr \<longrightarrow>
          token_response H resp =
            (if getTokenResponse.AccessToken tr \<noteq> []
             then Returned (getTokenResponse.AccessToken tr) None
             else if Token tr = [] then Returned [] (Some ErrNoToken)
             else Returned (Token tr) None)) \<and>
       (\<forall>msg. json_Decode_post H body = Inl msg \<longrightarrow>
          oauth_response H resp =
            Returned [] (Some (Errorf (''unable to decode token response: '' @ msg)))) \<and>
       (\<forall>tr. json_Decode_post H body = Inr tr \<longrightarrow>
          oauth_response H resp = Returned (postTokenResponse.AccessToken tr) None))"
proof (intro conjI impI allI)
  assume "http_NewRequest H ''GET'' (Realm to) None = Inr req \<and>
     ctxhttp_Do H (token_request H headers to req) = Inr resp"
  then show "FetchToken H headers to = token_response H resp"
    by (simp add: FetchToken_def)
next
  assume "http_NewRequest H ''POST'' (Realm to) (Some (url_Encode H (oauth_form clientID to))) = Inr req' \<and>
     ctxhttp_Do H (oauth_request headers req') = Inr resp"
  then show "FetchTokenWithOAuth H headers clientID to = oauth_response H resp"
    by (simp add: FetchTokenWithOAuth_def)
next
  assume out: "StatusCode resp < 200 \<or> 400 \<le> StatusCode resp"
  with assms show "token_response H resp =
      Returned [] (Some (WithStack
        (ErrUnexpectedStatus (Status resp) (StatusCode resp) (take 64000 body))))"
    by (auto simp: token_response_def newUnexpectedStatusErr_def)
  from out assms show "oauth_response H resp =
      Returned [] (Some (WithStack
        (ErrUnexpectedStatus (Status resp) (StatusCode resp) (take 64000 body))))"
    by (auto simp: oauth_response_def newUnexpectedStatusErr_def)
  show "length (take 64000 body) \<le> 64000" by simp
next
  fix msg
  assume "200 \<le> StatusCode resp \<and> StatusCode resp < 400" and "json_Decode_get H body = Inl msg"
  with assms show "token_response H resp =
      Returned [] (Some (Errorf (''unable to decode token response: '' @ msg)))"
    by (simp add: token_response_def)
next
  fix tr
  assume "200 \<le> StatusCode resp \<and> StatusCode resp < 400" and "json_Decode_get H body = Inr tr"
  with assms show "token_response H resp =
      (if getTokenResponse.AccessToken tr \<noteq> []
       then Returned (getTokenResponse.AccessToken tr) None
       else if Token tr = [] then Returned [] (Some ErrNoToken)
       else Returned (Token tr) None)"
    by (simp add: token_response_def Let_def)
next
  fix msg
  assume "200 \<le> StatusCode resp \<and> StatusCode resp < 400" and "json_Decode_post H body = Inl msg"
  with assms show "oauth_response H resp =
      Returned [] (Some (Errorf (''unable to decode token response: '' @ msg)))"
    by (simp add: oauth_response_def)
next
  fix tr
  assume "200 \<le> StatusCode resp \<and> StatusCode resp < 400" and "json_Decode_post H body = Inr tr"
  with assms show "oauth_response H resp = Returned (postTokenResponse.AccessToken tr) None"
    by (simp add: oauth_response_def)
qed

theorem fetch_status_check_witness:
  "FetchToken (demo_http \<lparr>Status = ''302 Found'', StatusCode = 302, Body = Some [1, 2]\<rparr>)
     Map.empty demo_to = Returned ''tok'' None \<and>
   FetchTokenWithOAuth (demo_http \<lparr>Status = ''302 Found'', StatusCode = 302, Body = Some [1, 2]\<rparr>)
     Map.empty ''client'' demo_to = Returned ''tok'' None \<and>
   FetchToken (demo_http \<lparr>Status = ''404 Not Found'', StatusCode = 404, Body = Some [1, 2]\<rparr>)
     Map.empty demo_to =
       Returned [] (Some (WithStack (ErrUnexpectedStatus ''404 Not Found'' 404 [1, 2]))) \<and>
   FetchTokenWithOAuth (demo_http \<lparr>Status = ''199'', StatusCode = 199, Body = Some [1, 2]\<rparr>)
     Map.empty ''client'' demo_to =
       Returned [] (Some (WithStack (ErrUnexpectedStatus ''199'' 199 [1, 2])))"
proof -
  let ?r302 = "\<lparr>Status = ''302 Found'', StatusCode = 302, Body = Some [1, 2 :: byte]\<rparr>"
  let ?r404 = "\<lparr>Status = ''404 Not Found'', StatusCode = 404, Body = Some [1, 2 :: byte]\<rparr>"
  let ?r199 = "\<lparr>Status = ''199'', StatusCode = 199, Body = Some [1, 2 :: byte]\<rparr>"
  have b302: "Body ?r302 = Some [1, 2]" and b404: "Body ?r404 = Some [1, 2]"
    and b199: "Body ?r199 = Some [1, 2]"
    by simp_all
  have a: "FetchToken (demo_http ?r302) Map.empty demo_to = Returned ''tok'' None"
    using fetch_status_check [OF b302, where H = "demo_http ?r302" and to = demo_to
        and headers = Map.empty]
    by (simp add: demo_http_sel)
  have b: "FetchTokenWithOAuth (demo_http ?r302) Map.empty ''client'' demo_to = Returned ''tok'' None"
    using fetch_status_check [OF b302, where H = "demo_http ?r302" and to = demo_to
        and headers = Map.empty and clientID = "''client''"]
    by (simp add: demo_http_sel)
  have c: "FetchToken (demo_http ?r404) Map.empty demo_to =
       Returned [] (Some (WithStack (ErrUnexpectedStatus ''404 Not Found'' 404 [1, 2])))"
    using fetch_status_check [OF b404, where H = "demo_http ?r404" and to = demo_to
        and headers = Map.empty]
    by (simp add: demo_http_sel)
  have d: "FetchTokenWithOAuth (demo_http ?r199) Map.empty ''client'' demo_to =
       Returned [] (Some (WithStack (ErrUnexpectedStatus ''199'' 199 [1, 2])))"
    using fetch_status_check [OF b199, where H = "demo_http ?r199" and to = demo_to
        and headers = Map.empty and clientID = "''client''"]
    by (simp add: demo_http_sel)
  from a b c d show ?thesis by simp
qed

end
